theory Spec2Isabelle
  imports Main "HOL-Library.Word"
begin

unbundle bit_operations_syntax

section \<open>Instruction set (RohitVM.hpp)\<close>

text \<open>
  \<open>enum class Opcode : uint8_t\<close>. The enumerators are the constructors \<open>NOP\<close> .. \<open>JNZ\<close>.
  The fetch unit casts an arbitrary memory byte to \<open>Opcode\<close>, so a value of the type may
  also be a byte that no enumerator names: \<open>Unknown b\<close>. \<open>opcode_of_byte\<close> is the cast from
  \<open>uint8_t\<close> and \<open>byte_of_opcode\<close> the cast back; \<open>opcode_of_byte\<close> yields \<open>Unknown b\<close> only
  for bytes outside the enumeration.
\<close>

datatype opcode =
    NOP | HLT
  | MOV | MOV_BX | MOV_CX | MOV_DX | MOV_SP
  | STE | CLE | STG | CLG | STH | CLH | STL | CLL
  | PUSH | POP
  | ADD | SUB | MUL | DIV
  | PRN
  | JMP | JZ | JNZ
  | Unknown "8 word"

fun byte_of_opcode :: "opcode \<Rightarrow> 8 word" where
  "byte_of_opcode NOP = 0x01"
| "byte_of_opcode HLT = 0x02"
| "byte_of_opcode MOV = 0x08"
| "byte_of_opcode MOV_BX = 0x09"
| "byte_of_opcode MOV_CX = 0x0A"
| "byte_of_opcode MOV_DX = 0x0B"
| "byte_of_opcode MOV_SP = 0x0C"
| "byte_of_opcode STE = 0x10"
| "byte_of_opcode CLE = 0x11"
| "byte_of_opcode STG = 0x12"
| "byte_of_opcode CLG = 0x13"
| "byte_of_opcode STH = 0x14"
| "byte_of_opcode CLH = 0x15"
| "byte_of_opcode STL = 0x16"
| "byte_of_opcode CLL = 0x17"
| "byte_of_opcode PUSH = 0x1A"
| "byte_of_opcode POP = 0x1B"
| "byte_of_opcode ADD = 0x20"
| "byte_of_opcode SUB = 0x21"
| "byte_of_opcode MUL = 0x22"
| "byte_of_opcode DIV = 0x23"
| "byte_of_opcode PRN = 0x30"
| "byte_of_opcode JMP = 0x31"
| "byte_of_opcode JZ = 0x32"
| "byte_of_opcode JNZ = 0x33"
| "byte_of_opcode (Unknown b) = b"

definition opcode_of_byte :: "8 word \<Rightarrow> opcode" where
  "opcode_of_byte b =
     (if b = 0x01 then NOP else if b = 0x02 then HLT
      else if b = 0x08 then MOV else if b = 0x09 then MOV_BX
      else if b = 0x0A then MOV_CX else if b = 0x0B then MOV_DX
      else if b = 0x0C then MOV_SP
      else if b = 0x10 then STE else if b = 0x11 then CLE
      else if b = 0x12 then STG else if b = 0x13 then CLG
      else if b = 0x14 then STH else if b = 0x15 then CLH
      else if b = 0x16 then STL else if b = 0x17 then CLL
      else if b = 0x1A then PUSH else if b = 0x1B then POP
      else if b = 0x20 then ADD else if b = 0x21 then SUB
      else if b = 0x22 then MUL else if b = 0x23 then DIV
      else if b = 0x30 then PRN
      else if b = 0x31 then JMP else if b = 0x32 then JZ
      else if b = 0x33 then JNZ
      else Unknown b)"

text \<open>\<open>struct Instruction { Opcode op; uint16_t a1 = 0; uint16_t a2 = 0; }\<close>\<close>

record instruction =
  op :: opcode
  a1 :: "16 word"
  a2 :: "16 word"

text \<open>Brace initialisers of the source: \<open>{op}\<close> and \<open>{op, a1}\<close>.\<close>

definition instr0 :: "opcode \<Rightarrow> instruction" where
  "instr0 c = \<lparr>op = c, a1 = 0, a2 = 0\<rparr>"

definition instr1 :: "opcode \<Rightarrow> 16 word \<Rightarrow> instruction" where
  "instr1 c x = \<lparr>op = c, a1 = x, a2 = 0\<rparr>"

text \<open>
  \<open>VM::getInstructionSize\<close>: a lookup in a \<open>std::map\<close> with \<open>operator[]\<close>, which yields the
  value-initialised \<open>0\<close> for a key that is not in the table.
\<close>

fun getInstructionSize :: "opcode \<Rightarrow> nat" where
  "getInstructionSize NOP = 1"
| "getInstructionSize HLT = 1"
| "getInstructionSize MOV = 3"
| "getInstructionSize MOV_BX = 3"
| "getInstructionSize MOV_CX = 3"
| "getInstructionSize MOV_DX = 3"
| "getInstructionSize MOV_SP = 3"
| "getInstructionSize STE = 1"
| "getInstructionSize CLE = 1"
| "getInstructionSize STG = 1"
| "getInstructionSize CLG = 1"
| "getInstructionSize STH = 1"
| "getInstructionSize CLH = 1"
| "getInstructionSize STL = 1"
| "getInstructionSize CLL = 1"
| "getInstructionSize PUSH = 3"
| "getInstructionSize POP = 3"
| "getInstructionSize ADD = 1"
| "getInstructionSize SUB = 1"
| "getInstructionSize MUL = 1"
| "getInstructionSize DIV = 1"
| "getInstructionSize PRN = 1"
| "getInstructionSize JMP = 3"
| "getInstructionSize JZ = 3"
| "getInstructionSize JNZ = 3"
| "getInstructionSize (Unknown b) = 0"

section \<open>Text output\<close>

text \<open>Decimal output of an unsigned number, as \<open>operator<<\<close> prints a \<open>uint16_t\<close>.\<close>

definition digit_char :: "nat \<Rightarrow> char" where
  "digit_char d = ''0123456789abcdef'' ! d"

fun show_nat :: "nat \<Rightarrow> string" where
  "show_nat n = (if n < 10 then [digit_char n] else show_nat (n div 10) @ [digit_char (n mod 10)])"

declare show_nat.simps [simp del]

text \<open>\<open>printf("%.02x", b)\<close> for a byte: two lower-case hexadecimal digits.\<close>

definition hex2 :: "8 word \<Rightarrow> string" where
  "hex2 b = [digit_char (unat b div 16), digit_char (unat b mod 16)]"

section \<open>Machine state (RohitVM.hpp)\<close>

text \<open>
  The classes \<open>Registers\<close>, \<open>CPU\<close>, \<open>Memory\<close> and \<open>VM\<close>, flattened into one record. The
  memory is a vector of exactly 65536 bytes indexed by a \<open>uint16_t\<close>, hence a total
  function on 16-bit addresses (\<open>data.at\<close> never throws). \<open>stdout\<close> is the text written
  to standard output so far.
\<close>

record vm =
  ax :: "16 word"
  bx :: "16 word"
  cx :: "16 word"
  dx :: "16 word"
  sp :: "16 word"
  ip :: "16 word"
  flags :: "16 word"
  memory :: "16 word \<Rightarrow> 8 word"
  breakLine :: "16 word"
  stdout :: string

definition init_vm :: vm where
  "init_vm = \<lparr>ax = 0, bx = 0, cx = 0, dx = 0, sp = 0xFFFF, ip = 0, flags = 0,
             memory = (\<lambda>_. 0), breakLine = 0, stdout = []\<rparr>"

text \<open>\<open>enum Flag\<close> of \<open>Registers\<close>.\<close>

definition Equal_flag :: "16 word" where "Equal_flag = 0x08"
definition Greater_flag :: "16 word" where "Greater_flag = 0x04"
definition Higher_flag :: "16 word" where "Higher_flag = 0x02"
definition Lower_flag :: "16 word" where "Lower_flag = 0x01"

definition setFlag :: "16 word \<Rightarrow> bool \<Rightarrow> vm \<Rightarrow> vm" where
  "setFlag m v s = (if v then s\<lparr>flags := flags s OR m\<rparr>
                       else s\<lparr>flags := flags s AND NOT m\<rparr>)"

definition setEqual :: "bool \<Rightarrow> vm \<Rightarrow> vm" where "setEqual = setFlag Equal_flag"
definition setGreater :: "bool \<Rightarrow> vm \<Rightarrow> vm" where "setGreater = setFlag Greater_flag"
definition setHigher :: "bool \<Rightarrow> vm \<Rightarrow> vm" where "setHigher = setFlag Higher_flag"
definition setLower :: "bool \<Rightarrow> vm \<Rightarrow> vm" where "setLower = setFlag Lower_flag"

section \<open>Loader and executor (RohitVM.cpp)\<close>

text \<open>
  \<open>VM::handleError\<close> is always called with \<open>fatal = true\<close>: it writes
  \<open>VM Error: msg\<close> to standard error and leaves the process through \<open>std::exit\<close>. A
  fatal exit is the value \<open>Inl (msg, s)\<close>, where \<open>s\<close> is the machine state at the exit.
\<close>

type_synonym fatal = "string \<times> vm"

definition handleError :: "string \<Rightarrow> vm \<Rightarrow> fatal + 'a" where
  "handleError msg s = Inl (msg, s)"

definition print :: "string \<Rightarrow> vm \<Rightarrow> vm" where
  "print t s = s\<lparr>stdout := stdout s @ t\<rparr>"

text \<open>\<open>RohitUtils::printhex(str, size, delim)\<close>, with \<open>str\<close> the address \<open>base\<close> of memory.\<close>

definition printhex :: "(16 word \<Rightarrow> 8 word) \<Rightarrow> 16 word \<Rightarrow> 16 word \<Rightarrow> char \<Rightarrow> string" where
  "printhex mem base n delim =
     concat (map (\<lambda>i. hex2 (mem (base + of_nat i)) @ (if delim \<noteq> CHR 0x00 then [delim] else []))
                 [0 ..< unat n]) @ [CHR 0x0A]"

definition load_instr :: "vm \<Rightarrow> instruction \<Rightarrow> vm" where
  "load_instr s instr =
     (let s1 = s\<lparr>memory := (memory s)(breakLine s := byte_of_opcode (op instr)),
                 breakLine := breakLine s + 1\<rparr>;
          n = getInstructionSize (op instr);
          s2 = (if n \<ge> 2
                then s1\<lparr>memory := (memory s1)(breakLine s1 := ucast (a1 instr),
                                                breakLine s1 + 1 := ucast (drop_bit 8 (a1 instr))),
                        breakLine := breakLine s1 + 2\<rparr>
                else s1)
      in (if n = 5
          then s2\<lparr>memory := (memory s2)(breakLine s2 := ucast (a2 instr),
                                          breakLine s2 + 1 := ucast (drop_bit 8 (a2 instr))),
                  breakLine := breakLine s2 + 2\<rparr>
          else s2))"

definition loadProgram :: "instruction list \<Rightarrow> vm \<Rightarrow> vm" where
  "loadProgram program s = foldl load_instr (s\<lparr>breakLine := 0\<rparr>) program"

definition read16 :: "(16 word \<Rightarrow> 8 word) \<Rightarrow> 16 word \<Rightarrow> 16 word" where
  "read16 mem a = ucast (mem a) OR push_bit 8 (ucast (mem (a + 1)))"

definition fetchNextInstruction :: "vm \<Rightarrow> instruction \<times> vm" where
  "fetchNextInstruction s =
     (let c = opcode_of_byte (memory s (ip s));
          n = getInstructionSize c;
          x1 = (if n \<ge> 2 then read16 (memory s) (ip s + 1) else 0);
          x2 = (if n = 5 then read16 (memory s) (ip s + 3) else 0)
      in (\<lparr>op = c, a1 = x1, a2 = x2\<rparr>, s\<lparr>ip := ip s + of_nat n\<rparr>))"

definition push :: "16 word \<Rightarrow> vm \<Rightarrow> fatal + vm" where
  "push val s =
     (if sp s < 2 then handleError ''Stack Overflow'' s
      else let p = sp s - 2
           in Inr (s\<lparr>sp := p,
                     memory := (memory s)(p := ucast val, p + 1 := ucast (drop_bit 8 val))\<rparr>))"

definition pop :: "vm \<Rightarrow> fatal + (16 word \<times> vm)" where
  "pop s =
     (if sp s > 65534 then handleError ''Stack Underflow'' s
      else Inr (read16 (memory s) (sp s), s\<lparr>sp := sp s + 2\<rparr>))"

definition pop_into :: "(16 word \<Rightarrow> vm \<Rightarrow> vm) \<Rightarrow> vm \<Rightarrow> fatal + vm" where
  "pop_into store s = (case pop s of Inl e \<Rightarrow> Inl e | Inr (val, s') \<Rightarrow> Inr (store val s'))"

definition halt_dump :: "vm \<Rightarrow> string" where
  "halt_dump s =
     ''System Halted'' @ [CHR 0x0A]
     @ ''AX: '' @ show_nat (unat (ax s)) @ '', BX: '' @ show_nat (unat (bx s))
     @ '', CX: '' @ show_nat (unat (cx s)) @ '', DX: '' @ show_nat (unat (dx s))
     @ '', SP: '' @ show_nat (unat (sp s)) @ [CHR 0x0A]
     @ printhex (memory s) (0xFFFF - 32) 32 CHR '' ''"

definition executeInstruction :: "instruction \<Rightarrow> vm \<Rightarrow> fatal + vm" where
  "executeInstruction instr s =
     (case op instr of
        NOP \<Rightarrow> Inr s
      | HLT \<Rightarrow> Inr (print (halt_dump s) s)
      | MOV \<Rightarrow> Inr (s\<lparr>ax := a1 instr\<rparr>)
      | MOV_BX \<Rightarrow> Inr (s\<lparr>bx := a1 instr\<rparr>)
      | MOV_CX \<Rightarrow> Inr (s\<lparr>cx := a1 instr\<rparr>)
      | MOV_DX \<Rightarrow> Inr (s\<lparr>dx := a1 instr\<rparr>)
      | MOV_SP \<Rightarrow> Inr (s\<lparr>sp := a1 instr\<rparr>)
      | ADD \<Rightarrow> Inr (s\<lparr>ax := ax s + bx s\<rparr>)
      | SUB \<Rightarrow> Inr (s\<lparr>ax := ax s - bx s\<rparr>)
      | MUL \<Rightarrow> Inr (s\<lparr>ax := ax s * bx s\<rparr>)
      | DIV \<Rightarrow> (if bx s = 0 then handleError ''Division by zero'' s
                 else Inr (s\<lparr>ax := ax s div bx s\<rparr>))
      | STE \<Rightarrow> Inr (setEqual True s)
      | CLE \<Rightarrow> Inr (setEqual False s)
      | STG \<Rightarrow> Inr (setGreater True s)
      | CLG \<Rightarrow> Inr (setGreater False s)
      | STH \<Rightarrow> Inr (setHigher True s)
      | CLH \<Rightarrow> Inr (setHigher False s)
      | STL \<Rightarrow> Inr (setLower True s)
      | CLL \<Rightarrow> Inr (setLower False s)
      | PUSH \<Rightarrow>
          (if a1 instr = 0 then push (ax s) s
           else if a1 instr = 1 then push (bx s) s
           else if a1 instr = 2 then push (cx s) s
           else if a1 instr = 3 then push (dx s) s
           else handleError ''Invalid PUSH register'' s)
      | POP \<Rightarrow>
          (if a1 instr = 0 then pop_into (\<lambda>v t. t\<lparr>ax := v\<rparr>) s
           else if a1 instr = 1 then pop_into (\<lambda>v t. t\<lparr>bx := v\<rparr>) s
           else if a1 instr = 2 then pop_into (\<lambda>v t. t\<lparr>cx := v\<rparr>) s
           else if a1 instr = 3 then pop_into (\<lambda>v t. t\<lparr>dx := v\<rparr>) s
           else handleError ''Invalid POP register'' s)
      | PRN \<Rightarrow>
          Inr (print (''Output: '' @ show_nat (unat (ax s)) @ [CHR 0x0A]
                      @ ''HUMAN OUTPUT: '' @ show_nat (unat (ax s)) @ [CHR 0x0A]) s)
      | JMP \<Rightarrow> Inr (s\<lparr>ip := a1 instr\<rparr>)
      | JZ \<Rightarrow> Inr (if ax s = 0 then s\<lparr>ip := a1 instr\<rparr> else s)
      | JNZ \<Rightarrow> Inr (if ax s \<noteq> 0 then s\<lparr>ip := a1 instr\<rparr> else s)
      | Unknown b \<Rightarrow> handleError ''Illegal Instruction'' s)"

text \<open>
  The loop of \<open>VM::execute\<close> after the banner. \<open>while (true)\<close> need not terminate: the
  result is \<open>None\<close> when the loop runs forever, \<open>Some (Inl e)\<close> for a fatal exit and
  \<open>Some (Inr s)\<close> when the loop is left after \<open>HLT\<close>. No operation of the loop throws, so
  the \<open>catch\<close> clause is dead.
\<close>

partial_function (option) run_loop :: "vm \<Rightarrow> (fatal + vm) option" where
  "run_loop s =
     (case fetchNextInstruction s of (instr, s1) \<Rightarrow>
        (case executeInstruction instr s1 of
           Inl e \<Rightarrow> Some (Inl e)
         | Inr s2 \<Rightarrow>
             if op instr = HLT then Some (Inr (print (''Program Halted.'' @ [CHR 0x0A]) s2))
             else run_loop s2))"

definition execute :: "vm \<Rightarrow> (fatal + vm) option" where
  "execute s = run_loop (print (''Starting VM Execution...'' @ [CHR 0x0A]) s)"

section \<open>Decoding a program image\<close>

text \<open>
  The opcodes of the table (those with an enumerator) and the number of bytes a program
  occupies when \<open>loadProgram\<close> has written it.
\<close>

definition in_table :: "opcode \<Rightarrow> bool" where
  "in_table c = (case c of Unknown b \<Rightarrow> False | _ \<Rightarrow> True)"

definition program_size :: "instruction list \<Rightarrow> nat" where
  "program_size program = sum_list (map (\<lambda>i. getInstructionSize (op i)) program)"

text \<open>
  The decoder of the encoding round trip: from the position \<open>ip\<close> it fetches one
  instruction with \<open>fetchNextInstruction\<close> (opcode byte, width, little-endian operands,
  \<open>ip\<close> advanced by the width) and repeats until \<open>n\<close> bytes are consumed. On a byte of
  width 0 it would never advance; then the result is \<open>None\<close>.
\<close>

partial_function (option) decode_image :: "vm \<Rightarrow> nat \<Rightarrow> instruction list option" where
  "decode_image s n =
     (if n = 0 then Some []
      else case fetchNextInstruction s of (instr, s') \<Rightarrow>
        Option.bind (decode_image s' (n - getInstructionSize (op instr)))
                    (\<lambda>rest. Some (instr # rest)))"

section \<open>Emitter (emitter.cpp)\<close>

text \<open>The first \<open>switch\<close> of \<open>Emitter::writeToFile\<close>: the textual name written for an opcode.\<close>

definition opcode_name :: "opcode \<Rightarrow> string" where
  "opcode_name c =
     (case c of
        NOP \<Rightarrow> ''NOP'' | HLT \<Rightarrow> ''HLT''
      | MOV \<Rightarrow> ''MOV'' | MOV_BX \<Rightarrow> ''MOV_BX'' | MOV_CX \<Rightarrow> ''MOV_CX''
      | MOV_DX \<Rightarrow> ''MOV_DX'' | MOV_SP \<Rightarrow> ''MOV_SP''
      | ADD \<Rightarrow> ''ADD'' | SUB \<Rightarrow> ''SUB'' | MUL \<Rightarrow> ''MUL'' | DIV \<Rightarrow> ''DIV''
      | PUSH \<Rightarrow> ''PUSH'' | POP \<Rightarrow> ''POP''
      | STE \<Rightarrow> ''STE'' | CLE \<Rightarrow> ''CLE'' | STG \<Rightarrow> ''STG'' | CLG \<Rightarrow> ''CLG''
      | STH \<Rightarrow> ''STH'' | CLH \<Rightarrow> ''CLH'' | STL \<Rightarrow> ''STL'' | CLL \<Rightarrow> ''CLL''
      | PRN \<Rightarrow> ''PRN''
      | _ \<Rightarrow> ''NOP'')"

text \<open>The second \<open>switch\<close>: the opcodes for which the operand \<open>a1\<close> is written.\<close>

definition operand_text :: "instruction \<Rightarrow> string" where
  "operand_text instr =
     (case op instr of
        MOV \<Rightarrow> '', '' @ show_nat (unat (a1 instr))
      | MOV_BX \<Rightarrow> '', '' @ show_nat (unat (a1 instr))
      | MOV_CX \<Rightarrow> '', '' @ show_nat (unat (a1 instr))
      | MOV_DX \<Rightarrow> '', '' @ show_nat (unat (a1 instr))
      | MOV_SP \<Rightarrow> '', '' @ show_nat (unat (a1 instr))
      | PUSH \<Rightarrow> '', '' @ show_nat (unat (a1 instr))
      | POP \<Rightarrow> '', '' @ show_nat (unat (a1 instr))
      | _ \<Rightarrow> [])"

definition emit_line :: "instruction \<Rightarrow> string" where
  "emit_line instr =
     ''    {Opcode::'' @ opcode_name (op instr) @ operand_text instr @ ''},'' @ [CHR 0x0A]"

text \<open>
  The text \<open>writeToFile\<close> writes when the output file could be opened (whether it can
  is a matter of the environment).
\<close>

definition writeToFile :: "instruction list \<Rightarrow> string" where
  "writeToFile instrs =
     ''#include '' @ [CHR 0x22] @ ''RohitVM.hpp'' @ [CHR 0x22, CHR 0x0A]
     @ ''std::vector<Instruction> prog = {'' @ [CHR 0x0A]
     @ concat (map emit_line instrs)
     @ ''};'' @ [CHR 0x0A]"

section \<open>Abstract syntax\<close>

text \<open>
  Modelled from the spec: the AST declarations of \<open>ast.h\<close>, which is not among the sources.
  The constructors and the order of their arguments are those used by \<open>parser.cpp\<close> and
  \<open>codegen.cpp\<close>; the operators are those the spec lists, so the \<open>default\<close> branch of the
  operator \<open>switch\<close> in \<open>genExpression\<close> has no value to be taken on. \<open>NullExpr\<close> is the
  null \<open>ExprPtr\<close> that \<open>parsePrimary\<close> returns on an unexpected token; the parser never
  stores a null statement. A \<open>Program\<close> is the list of its statements.
\<close>

datatype BinaryOp = Add | Sub | Mul | Div | Equal | Greater | Less

datatype expr =
    NumberExpr int
  | VariableExpr string
  | BinaryExpr BinaryOp expr expr
  | NullExpr

datatype stmt =
    LetStatement string expr
  | PrintStatement expr
  | IfStatement expr "stmt list" "stmt list"
  | WhileStatement expr "stmt list"

section \<open>Code generator (codegen.cpp)\<close>

text \<open>
  The state of a \<open>Codegen\<close> object. \<open>nextRegister\<close> and \<open>labelCounter\<close> are C++ \<open>int\<close>s
  that only count upwards from 1 and 0; they are unbounded here, since they reach
  \<open>INT_MAX\<close> only on programs of more than \<open>2^30\<close> statements. \<open>cerr\<close> collects the
  diagnostics written to standard error.
\<close>

datatype diagnostic = UnknownVariable string | UnknownLabelID int

record codegen =
  instructions :: "instruction list"
  symbolTable :: "string \<rightharpoonup> 16 word"
  labelTargets :: "int \<rightharpoonup> nat"
  labelPlaceholders :: "(nat \<times> int) list"
  nextRegister :: int
  labelCounter :: int
  cerr :: "diagnostic list"

definition emit :: "instruction \<Rightarrow> codegen \<Rightarrow> codegen" where
  "emit instr st = st\<lparr>instructions := instructions st @ [instr]\<rparr>"

definition newLabel :: "codegen \<Rightarrow> int \<times> codegen" where
  "newLabel st = (labelCounter st, st\<lparr>labelCounter := labelCounter st + 1\<rparr>)"

definition markLabel :: "int \<Rightarrow> codegen \<Rightarrow> codegen" where
  "markLabel labelId st =
     st\<lparr>labelTargets := (labelTargets st)(labelId \<mapsto> length (instructions st))\<rparr>"

definition emitJumpPlaceholder :: "opcode \<Rightarrow> int \<Rightarrow> codegen \<Rightarrow> codegen" where
  "emitJumpPlaceholder jumpOpcode labelId st =
     emit (instr1 jumpOpcode 0)
          (st\<lparr>labelPlaceholders := labelPlaceholders st @ [(length (instructions st), labelId)]\<rparr>)"

text \<open>
  One iteration of the loop of \<open>patchJumps\<close>. The assignment to \<open>a1\<close> converts the
  \<open>size_t\<close> target to \<open>uint16_t\<close>.
\<close>

definition patch_one :: "nat \<times> int \<Rightarrow> codegen \<Rightarrow> codegen" where
  "patch_one p st =
     (case labelTargets st (snd p) of
        Some target \<Rightarrow>
          st\<lparr>instructions :=
               (instructions st)[fst p := (instructions st ! fst p)\<lparr>a1 := of_nat target\<rparr>]\<rparr>
      | None \<Rightarrow> st\<lparr>cerr := cerr st @ [UnknownLabelID (snd p)]\<rparr>)"

definition patchJumps :: "codegen \<Rightarrow> codegen" where
  "patchJumps st = fold patch_one (labelPlaceholders st) st"

fun genExpression :: "expr \<Rightarrow> codegen \<Rightarrow> codegen" where
  "genExpression (NumberExpr v) st = emit (instr1 MOV (of_int v)) st"
| "genExpression (VariableExpr name) st =
     (case symbolTable st name of
        None \<Rightarrow> emit (instr1 MOV 0) (st\<lparr>cerr := cerr st @ [UnknownVariable name]\<rparr>)
      | Some reg \<Rightarrow> emit (instr1 POP 0) (emit (instr1 PUSH reg) st))"
| "genExpression (BinaryExpr bop left right) st =
     (let st1 = genExpression left st;
          st2 = emit (instr1 PUSH 0) st1;
          st3 = genExpression right st2;
          st4 = emit (instr1 POP 0) (emit (instr1 POP 1) (emit (instr1 PUSH 0) st3))
      in case bop of
           Add \<Rightarrow> emit (instr0 ADD) st4
         | Sub \<Rightarrow> emit (instr0 SUB) st4
         | Mul \<Rightarrow> emit (instr0 MUL) st4
         | Div \<Rightarrow> emit (instr0 DIV) st4
         | Equal \<Rightarrow> emit (instr0 STE) (emit (instr0 SUB) st4)
         | Greater \<Rightarrow> emit (instr0 STG) (emit (instr0 SUB) st4)
         | Less \<Rightarrow> emit (instr0 STL) (emit (instr0 SUB) st4))"
| "genExpression NullExpr st = st"

text \<open>The six instructions emitted after the condition of an \<open>if\<close> and of a \<open>while\<close>.\<close>

definition emit_prelude :: "codegen \<Rightarrow> codegen" where
  "emit_prelude st =
     emit (instr0 CLE) (emit (instr0 STE) (emit (instr0 SUB)
       (emit (instr1 MOV 0) (emit (instr1 POP 1) (emit (instr1 PUSH 0) st)))))"

fun genStatement :: "stmt \<Rightarrow> codegen \<Rightarrow> codegen" where
  "genStatement (LetStatement name val) st =
     (let st1 = genExpression val st;
          (reg, st2) =
             (case symbolTable st1 name of
                None \<Rightarrow> (of_int (nextRegister st1),
                          st1\<lparr>nextRegister := nextRegister st1 + 1,
                              symbolTable := (symbolTable st1)(name \<mapsto> of_int (nextRegister st1))\<rparr>)
              | Some r \<Rightarrow> (r, st1))
      in emit (instr1 POP reg) (emit (instr1 PUSH 0) st2))"
| "genStatement (PrintStatement e) st = emit (instr0 PRN) (genExpression e st)"
| "genStatement (IfStatement condition thenBranch elseBranch) st =
     (let st1 = emit_prelude (genExpression condition st);
          (elseLabel, st2) = newLabel st1;
          (endLabel, st3) = newLabel st2;
          st4 = emitJumpPlaceholder JZ elseLabel st3;
          st5 = fold genStatement thenBranch st4;
          st6 = emitJumpPlaceholder JMP endLabel st5;
          st7 = markLabel elseLabel st6;
          st8 = fold genStatement elseBranch st7
      in markLabel endLabel st8)"
| "genStatement (WhileStatement condition body) st =
     (let (condLabel, st1) = newLabel st;
          (endLabel, st2) = newLabel st1;
          st3 = markLabel condLabel st2;
          st4 = emit_prelude (genExpression condition st3);
          st5 = emitJumpPlaceholder JZ endLabel st4;
          st6 = fold genStatement body st5;
          st7 = emitJumpPlaceholder JMP condLabel st6
      in markLabel endLabel st7)"

text \<open>\<open>generate\<close> first clears every member, so it depends on the program alone.\<close>

definition init_codegen :: codegen where
  "init_codegen = \<lparr>instructions = [], symbolTable = Map.empty, labelTargets = Map.empty,
                   labelPlaceholders = [], nextRegister = 1, labelCounter = 0, cerr = []\<rparr>"

definition lowered :: "stmt list \<Rightarrow> codegen" where
  "lowered program = emit (instr0 HLT) (fold genStatement program init_codegen)"

definition generate_state :: "stmt list \<Rightarrow> codegen" where
  "generate_state program = patchJumps (lowered program)"

definition generate :: "stmt list \<Rightarrow> instruction list" where
  "generate program = instructions (generate_state program)"

text \<open>
  An instruction that the byte image can represent: its opcode is in the table, its
  second operand is zero, and its first operand is zero unless the opcode has an
  operand (width 3).
\<close>

definition canonical :: "instruction \<Rightarrow> bool" where
  "canonical i \<longleftrightarrow> in_table (op i) \<and> a2 i = 0 \<and> (getInstructionSize (op i) = 3 \<or> a1 i = 0)"

section \<open>Notions used in the statements and proofs\<close>

text \<open>
  What a run shows to the outside: for a fatal exit the error message and the standard
  output, for a normal halt the standard output; \<open>None\<close> when the run never ends.
\<close>

definition observe :: "(fatal + vm) option \<Rightarrow> (string \<times> string + string) option" where
  "observe r = map_option (map_sum (\<lambda>e. (fst e, stdout (snd e))) stdout) r"

text \<open>
  The variable names bound by the \<open>letbro\<close> statements of a statement, nested ones
  included, in the order in which \<open>genStatement\<close> meets them.
\<close>

fun bound_names :: "stmt \<Rightarrow> string list" where
  "bound_names (LetStatement name val) = [name]"
| "bound_names (PrintStatement e) = []"
| "bound_names (IfStatement condition thenBranch elseBranch) =
     concat (map bound_names thenBranch) @ concat (map bound_names elseBranch)"
| "bound_names (WhileStatement condition body) = concat (map bound_names body)"

definition is_jump :: "opcode \<Rightarrow> bool" where
  "is_jump c \<longleftrightarrow> c = JMP \<or> c = JZ \<or> c = JNZ"

text \<open>
  The invariant of the label bookkeeping, relative to a set \<open>L\<close> of labels that are
  allocated but not yet marked: every placeholder points at a jump instruction of the
  list and its label is marked or in \<open>L\<close>; every marked target is at most the current
  length; every jump instruction of the list has a placeholder; no unknown-label
  diagnostic has been written; and no two placeholders point at the same instruction.
\<close>

definition labels_ok :: "int set \<Rightarrow> codegen \<Rightarrow> bool" where
  "labels_ok L st \<longleftrightarrow>
     (\<forall>p \<in> set (labelPlaceholders st).
        (snd p \<in> dom (labelTargets st) \<or> snd p \<in> L)
        \<and> fst p < length (instructions st)
        \<and> is_jump (op (instructions st ! fst p)))
     \<and> (\<forall>l t. labelTargets st l = Some t \<longrightarrow> t \<le> length (instructions st))
     \<and> (\<forall>i < length (instructions st).
          is_jump (op (instructions st ! i)) \<longrightarrow> i \<in> fst ` set (labelPlaceholders st))
     \<and> (\<forall>l. UnknownLabelID l \<notin> set (cerr st))
     \<and> distinct (map fst (labelPlaceholders st))"

text \<open>
  The invariant of the register allocation, relative to the set \<open>N\<close> of names bound so
  far: the symbol table knows exactly the names of \<open>N\<close>, the next index is one more
  than their number, and for every index handed out the list holds the \<open>POP\<close> of the
  binding.
\<close>

definition regs_ok :: "string set \<Rightarrow> codegen \<Rightarrow> bool" where
  "regs_ok N st \<longleftrightarrow>
     dom (symbolTable st) = N \<and> finite N \<and> nextRegister st = 1 + int (card N)
     \<and> (\<forall>k. 1 \<le> k \<and> k < nextRegister st \<longrightarrow> instr1 POP (of_int k) \<in> set (instructions st))"

section \<open>Example programs\<close>

text \<open>
  Concrete programs at which the development evaluates the code: a machine program
  that stores a word just below the dumped region, the if-else scenario of the
  specification, an empty loop, and two programs that bind four names.
\<close>

definition dump_program :: "instruction list" where
  "dump_program = [instr1 MOV_SP 0xFFE1, instr1 MOV 0xABCD, instr1 PUSH 0, instr0 HLT]"

definition scenario_S3 :: "stmt list" where
  "scenario_S3 =
     [LetStatement ''a'' (NumberExpr 5),
      IfStatement (BinaryExpr Equal (VariableExpr ''a'') (NumberExpr 5))
        [PrintStatement (NumberExpr 1)] [PrintStatement (NumberExpr 2)]]"

definition loop_program :: "stmt list" where
  "loop_program = [WhileStatement (NumberExpr 1) []]"

definition four_names_program :: "stmt list" where
  "four_names_program =
     [PrintStatement (NumberExpr 512), WhileStatement (NumberExpr 1) [],
      LetStatement ''a'' (NumberExpr 1), LetStatement ''b'' (NumberExpr 2),
      LetStatement ''c'' (NumberExpr 3), LetStatement ''d'' (NumberExpr 4)]"

definition four_lets :: "stmt list" where
  "four_lets =
     [LetStatement ''a'' (NumberExpr 1), LetStatement ''b'' (NumberExpr 2),
      LetStatement ''c'' (NumberExpr 3), LetStatement ''d'' (NumberExpr 4),
      PrintStatement (VariableExpr ''d'')]"

section \<open>Evaluation rules\<close>

lemmas vm_simps = fetchNextInstruction_def executeInstruction_def opcode_of_byte_def read16_def
  push_def pop_def pop_into_def handleError_def print_def setEqual_def setGreater_def
  setHigher_def setLower_def setFlag_def Equal_flag_def Greater_flag_def Higher_flag_def
  Lower_flag_def

lemmas load_simps = execute_def loadProgram_def load_instr_def init_vm_def print_def
  instr0_def instr1_def

lemmas codegen_simps = generate_def generate_state_def lowered_def patchJumps_def patch_one_def
  init_codegen_def emit_def newLabel_def markLabel_def emitJumpPlaceholder_def emit_prelude_def
  instr0_def instr1_def

lemmas show_nat_numeral = show_nat.simps [of "numeral k" for k]

lemma show_nat_small: "show_nat 0 = ''0''" "show_nat 1 = ''1''" "show_nat (Suc 0) = ''1''"
  by (simp_all add: show_nat.simps digit_char_def)

lemmas text_simps = show_nat_numeral show_nat_small digit_char_def hex2_def

section \<open>Arithmetic instructions\<close>

lemma unat_sub16: "int (unat (a - b)) = (int (unat a) - int (unat b)) mod 2 ^ 16"
  for a b :: "16 word"
  by (simp add: uint_word_ariths flip: uint_nat)

text \<open>
  Claim C7. For every machine state and whatever the operand fields hold, \<open>ADD\<close>, \<open>SUB\<close>
  and \<open>MUL\<close> replace \<open>AX\<close> by the sum, difference and product of \<open>AX\<close> and \<open>BX\<close> modulo
  \<open>2^16\<close> and change nothing else. \<open>DIV\<close> with \<open>BX = 0\<close> is the fatal error
  \<open>Division by zero\<close>, the state (so \<open>AX\<close>) being as before; with \<open>BX \<noteq> 0\<close> it
  replaces \<open>AX\<close> by the integer quotient of \<open>AX\<close> by \<open>BX\<close>. (The 16-bit operands are
  promoted to \<open>int\<close> in C++ and the result is converted back; the model computes on
  16-bit words.)
\<close>

theorem arithmetic_wraps:
  "executeInstruction \<lparr>op = ADD, a1 = x, a2 = y\<rparr> s = Inr (s\<lparr>ax := ax s + bx s\<rparr>)
   \<and> unat (ax s + bx s) = (unat (ax s) + unat (bx s)) mod 2 ^ 16
   \<and> executeInstruction \<lparr>op = SUB, a1 = x, a2 = y\<rparr> s = Inr (s\<lparr>ax := ax s - bx s\<rparr>)
   \<and> int (unat (ax s - bx s)) = (int (unat (ax s)) - int (unat (bx s))) mod 2 ^ 16
   \<and> executeInstruction \<lparr>op = MUL, a1 = x, a2 = y\<rparr> s = Inr (s\<lparr>ax := ax s * bx s\<rparr>)
   \<and> unat (ax s * bx s) = (unat (ax s) * unat (bx s)) mod 2 ^ 16
   \<and> (bx s = 0 \<longrightarrow>
        executeInstruction \<lparr>op = DIV, a1 = x, a2 = y\<rparr> s = Inl (''Division by zero'', s))
   \<and> (bx s \<noteq> 0 \<longrightarrow>
        executeInstruction \<lparr>op = DIV, a1 = x, a2 = y\<rparr> s = Inr (s\<lparr>ax := ax s div bx s\<rparr>)
        \<and> unat (ax s div bx s) = unat (ax s) div unat (bx s))"
proof -
  have e: "executeInstruction \<lparr>op = ADD, a1 = x, a2 = y\<rparr> s = Inr (s\<lparr>ax := ax s + bx s\<rparr>)"
    "executeInstruction \<lparr>op = SUB, a1 = x, a2 = y\<rparr> s = Inr (s\<lparr>ax := ax s - bx s\<rparr>)"
    "executeInstruction \<lparr>op = MUL, a1 = x, a2 = y\<rparr> s = Inr (s\<lparr>ax := ax s * bx s\<rparr>)"
    "bx s = 0 \<longrightarrow>
       executeInstruction \<lparr>op = DIV, a1 = x, a2 = y\<rparr> s = Inl (''Division by zero'', s)"
    "bx s \<noteq> 0 \<longrightarrow>
       executeInstruction \<lparr>op = DIV, a1 = x, a2 = y\<rparr> s = Inr (s\<lparr>ax := ax s div bx s\<rparr>)"
    by (simp_all add: executeInstruction_def handleError_def)
  have a: "unat (ax s + bx s) = (unat (ax s) + unat (bx s)) mod 2 ^ 16"
    "unat (ax s * bx s) = (unat (ax s) * unat (bx s)) mod 2 ^ 16"
    by (simp_all add: unat_word_ariths)
  have d: "unat (ax s div bx s) = unat (ax s) div unat (bx s)"
    by (simp add: unat_div)
  from e a d unat_sub16 show ?thesis by blast
qed

theorem arithmetic_wraps_witness:
  "executeInstruction \<lparr>op = DIV, a1 = 0, a2 = 0\<rparr> (init_vm\<lparr>ax := 7\<rparr>)
     = Inl (''Division by zero'', init_vm\<lparr>ax := 7\<rparr>)
   \<and> executeInstruction \<lparr>op = DIV, a1 = 0, a2 = 0\<rparr> (init_vm\<lparr>ax := 7, bx := 2\<rparr>)
     = Inr (init_vm\<lparr>ax := 3, bx := 2\<rparr>)
   \<and> executeInstruction \<lparr>op = MUL, a1 = 0, a2 = 0\<rparr> (init_vm\<lparr>ax := 65535, bx := 65535\<rparr>)
     = Inr (init_vm\<lparr>ax := 1, bx := 65535\<rparr>)"
  using arithmetic_wraps [of 0 0 "init_vm\<lparr>ax := 7\<rparr>"]
    arithmetic_wraps [of 0 0 "init_vm\<lparr>ax := 7, bx := 2\<rparr>"]
    arithmetic_wraps [of 0 0 "init_vm\<lparr>ax := 65535, bx := 65535\<rparr>"]
  by (simp add: init_vm_def)

section \<open>Flag instructions\<close>

lemma or_bit16: "k < 16 \<Longrightarrow> bit (f OR 2 ^ k) n \<longleftrightarrow> n = k \<or> bit f n" for f :: "16 word"
  by (auto simp add: bit_or_iff bit_exp_iff)

lemma and_not_bit16: "k < 16 \<Longrightarrow> bit (f AND NOT (2 ^ k)) n \<longleftrightarrow> n \<noteq> k \<and> bit f n"
  for f :: "16 word"
  by (auto simp add: bit_and_iff bit_not_iff bit_exp_iff dest: bit_imp_le_length)

text \<open>
  Claim C8. For every machine state and whatever the operand fields hold, each of
  \<open>STE\<close>, \<open>CLE\<close>, \<open>STG\<close>, \<open>CLG\<close>, \<open>STH\<close>, \<open>CLH\<close>, \<open>STL\<close>, \<open>CLL\<close> yields the same state with
  only \<open>FLAGS\<close> replaced (so \<open>AX\<close>, \<open>BX\<close>, \<open>CX\<close>, \<open>DX\<close>, \<open>SP\<close> and memory are as before), the
  new \<open>FLAGS\<close> being the old ones with the mask \<open>0x08\<close> (Equal), \<open>0x04\<close> (Greater),
  \<open>0x02\<close> (Higher) or \<open>0x01\<close> (Lower) or-ed in or and-ed out; and or-ing a mask in sets
  bit 3, 2, 1 or 0 and keeps every other bit, and-ing it out clears that bit and keeps
  every other bit.
\<close>

theorem flag_instructions_frame:
  "executeInstruction \<lparr>op = STE, a1 = x, a2 = y\<rparr> s = Inr (s\<lparr>flags := flags s OR 0x08\<rparr>)
   \<and> executeInstruction \<lparr>op = CLE, a1 = x, a2 = y\<rparr> s = Inr (s\<lparr>flags := flags s AND NOT 0x08\<rparr>)
   \<and> executeInstruction \<lparr>op = STG, a1 = x, a2 = y\<rparr> s = Inr (s\<lparr>flags := flags s OR 0x04\<rparr>)
   \<and> executeInstruction \<lparr>op = CLG, a1 = x, a2 = y\<rparr> s = Inr (s\<lparr>flags := flags s AND NOT 0x04\<rparr>)
   \<and> executeInstruction \<lparr>op = STH, a1 = x, a2 = y\<rparr> s = Inr (s\<lparr>flags := flags s OR 0x02\<rparr>)
   \<and> executeInstruction \<lparr>op = CLH, a1 = x, a2 = y\<rparr> s = Inr (s\<lparr>flags := flags s AND NOT 0x02\<rparr>)
   \<and> executeInstruction \<lparr>op = STL, a1 = x, a2 = y\<rparr> s = Inr (s\<lparr>flags := flags s OR 0x01\<rparr>)
   \<and> executeInstruction \<lparr>op = CLL, a1 = x, a2 = y\<rparr> s = Inr (s\<lparr>flags := flags s AND NOT 0x01\<rparr>)
   \<and> (\<forall>n. bit (flags s OR 0x08) n = (n = 3 \<or> bit (flags s) n))
   \<and> (\<forall>n. bit (flags s AND NOT 0x08) n = (n \<noteq> 3 \<and> bit (flags s) n))
   \<and> (\<forall>n. bit (flags s OR 0x04) n = (n = 2 \<or> bit (flags s) n))
   \<and> (\<forall>n. bit (flags s AND NOT 0x04) n = (n \<noteq> 2 \<and> bit (flags s) n))
   \<and> (\<forall>n. bit (flags s OR 0x02) n = (n = 1 \<or> bit (flags s) n))
   \<and> (\<forall>n. bit (flags s AND NOT 0x02) n = (n \<noteq> 1 \<and> bit (flags s) n))
   \<and> (\<forall>n. bit (flags s OR 0x01) n = (n = 0 \<or> bit (flags s) n))
   \<and> (\<forall>n. bit (flags s AND NOT 0x01) n = (n \<noteq> 0 \<and> bit (flags s) n))"
proof -
  have e: "executeInstruction \<lparr>op = STE, a1 = x, a2 = y\<rparr> s = Inr (s\<lparr>flags := flags s OR 0x08\<rparr>)"
    "executeInstruction \<lparr>op = CLE, a1 = x, a2 = y\<rparr> s = Inr (s\<lparr>flags := flags s AND NOT 0x08\<rparr>)"
    "executeInstruction \<lparr>op = STG, a1 = x, a2 = y\<rparr> s = Inr (s\<lparr>flags := flags s OR 0x04\<rparr>)"
    "executeInstruction \<lparr>op = CLG, a1 = x, a2 = y\<rparr> s = Inr (s\<lparr>flags := flags s AND NOT 0x04\<rparr>)"
    "executeInstruction \<lparr>op = STH, a1 = x, a2 = y\<rparr> s = Inr (s\<lparr>flags := flags s OR 0x02\<rparr>)"
    "executeInstruction \<lparr>op = CLH, a1 = x, a2 = y\<rparr> s = Inr (s\<lparr>flags := flags s AND NOT 0x02\<rparr>)"
    "executeInstruction \<lparr>op = STL, a1 = x, a2 = y\<rparr> s = Inr (s\<lparr>flags := flags s OR 0x01\<rparr>)"
    "executeInstruction \<lparr>op = CLL, a1 = x, a2 = y\<rparr> s = Inr (s\<lparr>flags := flags s AND NOT 0x01\<rparr>)"
    by (simp_all add: executeInstruction_def setEqual_def setGreater_def setHigher_def
        setLower_def setFlag_def Equal_flag_def Greater_flag_def Higher_flag_def Lower_flag_def)
  have b: "\<forall>n. bit (flags s OR 0x08) n = (n = 3 \<or> bit (flags s) n)"
    "\<forall>n. bit (flags s AND NOT 0x08) n = (n \<noteq> 3 \<and> bit (flags s) n)"
    "\<forall>n. bit (flags s OR 0x04) n = (n = 2 \<or> bit (flags s) n)"
    "\<forall>n. bit (flags s AND NOT 0x04) n = (n \<noteq> 2 \<and> bit (flags s) n)"
    "\<forall>n. bit (flags s OR 0x02) n = (n = 1 \<or> bit (flags s) n)"
    "\<forall>n. bit (flags s AND NOT 0x02) n = (n \<noteq> 1 \<and> bit (flags s) n)"
    "\<forall>n. bit (flags s OR 0x01) n = (n = 0 \<or> bit (flags s) n)"
    "\<forall>n. bit (flags s AND NOT 0x01) n = (n \<noteq> 0 \<and> bit (flags s) n)"
    using or_bit16 [of 3 "flags s"] and_not_bit16 [of 3 "flags s"]
      or_bit16 [of 2 "flags s"] and_not_bit16 [of 2 "flags s"]
      or_bit16 [of 1 "flags s"] and_not_bit16 [of 1 "flags s"]
      or_bit16 [of 0 "flags s"] and_not_bit16 [of 0 "flags s"]
    by simp_all
  from e b show ?thesis by blast
qed

section \<open>Stack instructions and fatal errors\<close>

lemma fatal_keeps_state: "executeInstruction i s = Inl (m, s') \<Longrightarrow> s' = s"
  unfolding executeInstruction_def
  by (cases "op i")
    (auto simp add: push_def pop_def pop_into_def handleError_def Let_def split: if_splits)

lemma fatal_stops_loop:
  "executeInstruction (fst (fetchNextInstruction s)) (snd (fetchNextInstruction s)) = Inl e
   \<Longrightarrow> run_loop s = Some (Inl e)"
  by (subst run_loop.simps) (simp add: case_prod_beta)

text \<open>
  Claim C5, as stated, fails: the register selector is examined before the stack
  pointer, so \<open>PUSH 4\<close> with \<open>SP = 0\<close> is the error \<open>Invalid PUSH register\<close> and not
  \<open>Stack Overflow\<close> although \<open>SP < 2\<close>, and \<open>POP 4\<close> with \<open>SP = 0xFFFF\<close> is
  \<open>Invalid POP register\<close> and not \<open>Stack Underflow\<close> although \<open>SP > 65534\<close>.
\<close>

theorem selector_checked_before_stack_pointer:
  "sp (init_vm\<lparr>sp := 0\<rparr>) < 2
   \<and> executeInstruction \<lparr>op = PUSH, a1 = 4, a2 = 0\<rparr> (init_vm\<lparr>sp := 0\<rparr>)
       = Inl (''Invalid PUSH register'', init_vm\<lparr>sp := 0\<rparr>)
   \<and> ''Invalid PUSH register'' \<noteq> ''Stack Overflow''
   \<and> sp init_vm > 65534
   \<and> executeInstruction \<lparr>op = POP, a1 = 4, a2 = 0\<rparr> init_vm
       = Inl (''Invalid POP register'', init_vm)
   \<and> ''Invalid POP register'' \<noteq> ''Stack Underflow''"
  by (simp add: executeInstruction_def handleError_def init_vm_def)

text \<open>
  Claim C5, amended. With an operand in \<open>{0,1,2,3}\<close>, \<open>PUSH\<close> is the fatal error
  \<open>Stack Overflow\<close> if and only if \<open>SP < 2\<close>, and \<open>POP\<close> is the fatal error
  \<open>Stack Underflow\<close> if and only if \<open>SP > 65534\<close>. With any other operand \<open>PUSH\<close> is the
  fatal error \<open>Invalid PUSH register\<close> and \<open>POP\<close> the fatal error \<open>Invalid POP register\<close>,
  whatever \<open>SP\<close> is. Whenever an instruction ends in a fatal error the machine state at
  the exit is the state before the instruction, and the execution loop ends with that
  error.
\<close>

theorem stack_faults:
  "(r \<in> {0, 1, 2, 3} \<longrightarrow>
      ((executeInstruction \<lparr>op = PUSH, a1 = r, a2 = y\<rparr> s = Inl (''Stack Overflow'', s))
         = (sp s < 2))
    \<and> ((executeInstruction \<lparr>op = POP, a1 = r, a2 = y\<rparr> s = Inl (''Stack Underflow'', s))
         = (sp s > 65534)))
   \<and> (r \<notin> {0, 1, 2, 3} \<longrightarrow>
      executeInstruction \<lparr>op = PUSH, a1 = r, a2 = y\<rparr> s = Inl (''Invalid PUSH register'', s)
    \<and> executeInstruction \<lparr>op = POP, a1 = r, a2 = y\<rparr> s = Inl (''Invalid POP register'', s))
   \<and> (\<forall>m s'. executeInstruction i s = Inl (m, s') \<longrightarrow> s' = s)
   \<and> (\<forall>e. executeInstruction (fst (fetchNextInstruction s)) (snd (fetchNextInstruction s))
            = Inl e \<longrightarrow> run_loop s = Some (Inl e))"
proof -
  have valid: "r \<in> {0, 1, 2, 3} \<longrightarrow>
      ((executeInstruction \<lparr>op = PUSH, a1 = r, a2 = y\<rparr> s = Inl (''Stack Overflow'', s))
         = (sp s < 2))
    \<and> ((executeInstruction \<lparr>op = POP, a1 = r, a2 = y\<rparr> s = Inl (''Stack Underflow'', s))
         = (sp s > 65534))"
    by (auto simp add: executeInstruction_def push_def pop_def pop_into_def handleError_def
        Let_def)
  have invalid: "r \<notin> {0, 1, 2, 3} \<longrightarrow>
      executeInstruction \<lparr>op = PUSH, a1 = r, a2 = y\<rparr> s = Inl (''Invalid PUSH register'', s)
    \<and> executeInstruction \<lparr>op = POP, a1 = r, a2 = y\<rparr> s = Inl (''Invalid POP register'', s)"
    by (simp add: executeInstruction_def handleError_def)
  from valid invalid fatal_keeps_state fatal_stops_loop show ?thesis by blast
qed

theorem stack_faults_witness:
  "executeInstruction \<lparr>op = PUSH, a1 = 0, a2 = 0\<rparr> (init_vm\<lparr>sp := 1\<rparr>)
     = Inl (''Stack Overflow'', init_vm\<lparr>sp := 1\<rparr>)
   \<and> executeInstruction \<lparr>op = POP, a1 = 0, a2 = 0\<rparr> init_vm = Inl (''Stack Underflow'', init_vm)
   \<and> executeInstruction \<lparr>op = PUSH, a1 = 4, a2 = 0\<rparr> init_vm
     = Inl (''Invalid PUSH register'', init_vm)
   \<and> executeInstruction \<lparr>op = POP, a1 = 4, a2 = 0\<rparr> init_vm
     = Inl (''Invalid POP register'', init_vm)
   \<and> run_loop init_vm = Some (Inl (''Illegal Instruction'', init_vm))"
proof -
  have f: "fetchNextInstruction init_vm = (\<lparr>op = Unknown 0, a1 = 0, a2 = 0\<rparr>, init_vm)"
    by (simp add: fetchNextInstruction_def opcode_of_byte_def init_vm_def)
  have x: "executeInstruction \<lparr>op = Unknown 0, a1 = 0, a2 = 0\<rparr> init_vm
             = Inl (''Illegal Instruction'', init_vm)"
    by (simp add: executeInstruction_def handleError_def)
  have a: "sp (init_vm\<lparr>sp := 1\<rparr>) < 2" "sp init_vm > 65534"
    by (simp_all add: init_vm_def)
  show ?thesis
    using stack_faults [of 0 0 "init_vm\<lparr>sp := 1\<rparr>" "\<lparr>op = Unknown 0, a1 = 0, a2 = 0\<rparr>"]
      stack_faults [of 0 0 init_vm "\<lparr>op = Unknown 0, a1 = 0, a2 = 0\<rparr>"]
      stack_faults [of 4 0 init_vm "\<lparr>op = Unknown 0, a1 = 0, a2 = 0\<rparr>"] f x a
    by simp
qed

section \<open>Halting\<close>

lemma dump_addresses:
  "map (\<lambda>i. f ((0xFFFF - 32 :: 16 word) + of_nat i)) [0 ..< unat (32 :: 16 word)]
   = map (\<lambda>a. f (of_nat a)) [0xFFDF ..< 0xFFFF]"
proof -
  have u: "unat (32 :: 16 word) = 32" by simp
  have b: "(0xFFFF - 32 :: 16 word) = of_nat 0xFFDF" by simp
  have "[0xFFDF ..< 0xFFFF] = map (\<lambda>i. i + 0xFFDF) [0 ..< 32::nat]"
    by (simp only: map_add_upt) simp
  then have "map (\<lambda>a. f (of_nat a :: 16 word)) [0xFFDF ..< 0xFFFF]
      = map (\<lambda>i. f (of_nat 0xFFDF + of_nat i)) [0 ..< 32]"
    by (simp only: map_map o_def of_nat_add add.commute)
  then show ?thesis by (simp only: u b)
qed

text \<open>
  What \<open>HLT\<close> does in every state: it appends to standard output the line
  \<open>System Halted\<close>, the line of \<open>AX\<close>, \<open>BX\<close>, \<open>CX\<close>, \<open>DX\<close>, \<open>SP\<close> and one line with the
  32 bytes at the addresses \<open>0xFFDF\<close> to \<open>0xFFFE\<close> in hexadecimal, changes nothing
  else, and the loop is left with \<open>Program Halted.\<close> The byte at \<open>0xFFFF\<close> is not
  part of the dump and the byte at \<open>0xFFDF\<close> is.
\<close>

lemma hlt_dump_range:
  "executeInstruction \<lparr>op = HLT, a1 = x, a2 = y\<rparr> s =
     Inr (s\<lparr>stdout := stdout s @ ''System Halted\<newline>''
            @ ''AX: '' @ show_nat (unat (ax s)) @ '', BX: '' @ show_nat (unat (bx s))
            @ '', CX: '' @ show_nat (unat (cx s)) @ '', DX: '' @ show_nat (unat (dx s))
            @ '', SP: '' @ show_nat (unat (sp s)) @ ''\<newline>''
            @ concat (map (\<lambda>a. hex2 (memory s (of_nat a)) @ '' '') [0xFFDF ..< 0xFFFF])
            @ ''\<newline>''\<rparr>)"
  unfolding executeInstruction_def halt_dump_def printhex_def print_def
  by (simp only: dump_addresses
        [of "\<lambda>a. hex2 (memory s a) @ (if CHR '' '' \<noteq> CHR 0x00 then '' '' else [])"])
    (simp del: upt_rec_numeral)

lemma hlt_leaves_loop:
  "opcode_of_byte (memory s (ip s)) = HLT \<Longrightarrow>
   run_loop s = Some (Inr (print ''Program Halted.\<newline>''
                            (print (halt_dump (s\<lparr>ip := ip s + 1\<rparr>)) (s\<lparr>ip := ip s + 1\<rparr>))))"
  by (subst run_loop.simps) (simp add: fetchNextInstruction_def executeInstruction_def)

text \<open>
  Claim C6 at a concrete program: \<open>MOV_SP 0xFFE1; MOV 0xABCD; PUSH 0; HLT\<close> stores
  \<open>0xCD\<close> at \<open>0xFFDF\<close> and \<open>0xAB\<close> at \<open>0xFFE0\<close>. The run ends normally, and the dump
  line starts with \<open>cd ab\<close>: it shows the 32 bytes from \<open>0xFFDF\<close>, not the last 32
  bytes of memory, whose dump would start with \<open>ab 00\<close>.
\<close>

theorem hlt_dump_starts_at_ffdf:
  "\<exists>s. execute (loadProgram dump_program init_vm) = Some (Inr s)
     \<and> memory s 0xFFDF = 0xCD \<and> memory s 0xFFE0 = 0xAB \<and> memory s 0xFFFF = 0
     \<and> stdout s = ''Starting VM Execution...\<newline>''
         @ ''System Halted\<newline>''
         @ ''AX: 43981, BX: 0, CX: 0, DX: 0, SP: 65503\<newline>''
         @ ''cd ab 00 00 00 00 00 00 00 00 00 00 00 00 00 00 ''
         @ ''00 00 00 00 00 00 00 00 00 00 00 00 00 00 00 00 \<newline>''
         @ ''Program Halted.\<newline>''"
  apply (simp add: dump_program_def load_simps)
  apply (subst run_loop.simps, simp add: vm_simps)+
  apply (simp add: halt_dump_def printhex_def text_simps upt_rec)
  done

section \<open>The if-else scenario\<close>

lemma generate_S3:
  "generate scenario_S3 =
     [instr1 MOV 5, instr1 PUSH 0, instr1 POP 1,
      instr1 PUSH 1, instr1 POP 0, instr1 PUSH 0, instr1 MOV 5, instr1 PUSH 0,
      instr1 POP 1, instr1 POP 0, instr0 SUB, instr0 STE,
      instr1 PUSH 0, instr1 POP 1, instr1 MOV 0, instr0 SUB, instr0 STE, instr0 CLE,
      instr1 JZ 22, instr1 MOV 1, instr0 PRN, instr1 JMP 24,
      instr1 MOV 2, instr0 PRN, instr0 HLT]"
  by (simp add: scenario_S3_def codegen_simps)

text \<open>
  Claim C1 on the code. The program \<open>letbro a = 5; ifbro (a == 5) { printbro(1); }
  elsebro { printbro(2); }\<close> is lowered to 25 instructions with \<open>JZ 22\<close> at index 18,
  22 being the index of the else branch in the instruction list. Loaded and executed,
  the run reaches the \<open>JZ\<close> with \<open>AX = 0\<close> and takes it, but the machine uses the
  operand as a byte address: byte 22 is an operand byte (\<open>0x00\<close>) of the instruction at
  index 7, which is no opcode. The run ends with the fatal error
  \<open>Illegal Instruction\<close> at \<open>IP = 22\<close> and has printed nothing but the banner: no
  line \<open>Output: 2\<close>.
\<close>

theorem scenario_S3_illegal_instruction:
  "\<exists>s. execute (loadProgram (generate scenario_S3) init_vm)
          = Some (Inl (''Illegal Instruction'', s))
     \<and> ip s = 22 \<and> ax s = 0 \<and> memory s 22 = 0
     \<and> stdout s = ''Starting VM Execution...\<newline>''"
  apply (simp add: generate_S3 load_simps)
  apply (subst run_loop.simps, simp add: vm_simps)+
  done

section \<open>The emitted artifact\<close>

lemma jumps_emitted_as_nop:
  "emit_line \<lparr>op = JMP, a1 = t, a2 = y\<rparr> = ''    {Opcode::NOP},\<newline>''"
  "emit_line \<lparr>op = JZ, a1 = t, a2 = y\<rparr> = ''    {Opcode::NOP},\<newline>''"
  "emit_line \<lparr>op = JNZ, a1 = t, a2 = y\<rparr> = ''    {Opcode::NOP},\<newline>''"
  by (simp_all add: emit_line_def opcode_name_def operand_text_def)

lemma generate_loop_program:
  "generate loop_program =
     [instr1 MOV 1, instr1 PUSH 0, instr1 POP 1, instr1 MOV 0, instr0 SUB, instr0 STE,
      instr0 CLE, instr1 JZ 9, instr1 JMP 0, instr0 HLT]"
  by (simp add: loop_program_def codegen_simps)

text \<open>
  Claim C2 at a concrete program: \<open>whilebro (1) { }\<close> is lowered to ten instructions
  with \<open>JZ 9\<close> at index 7 and \<open>JMP 0\<close> at index 8. The emitter has no case for the
  jump opcodes in either \<open>switch\<close>: both instructions are written as
  \<open>{Opcode::NOP},\<close>, without their name and without their operand.
\<close>

theorem emitter_writes_jumps_as_nop:
  "op (generate loop_program ! 7) = JZ \<and> a1 (generate loop_program ! 7) = 9
   \<and> op (generate loop_program ! 8) = JMP \<and> a1 (generate loop_program ! 8) = 0
   \<and> writeToFile (generate loop_program) =
        ''#include '' @ [CHR 0x22] @ ''RohitVM.hpp'' @ [CHR 0x22] @ ''\<newline>''
        @ ''std::vector<Instruction> prog = {\<newline>''
        @ ''    {Opcode::MOV, 1},\<newline>''
        @ ''    {Opcode::PUSH, 0},\<newline>''
        @ ''    {Opcode::POP, 1},\<newline>''
        @ ''    {Opcode::MOV, 0},\<newline>''
        @ ''    {Opcode::SUB},\<newline>''
        @ ''    {Opcode::STE},\<newline>''
        @ ''    {Opcode::CLE},\<newline>''
        @ ''    {Opcode::NOP},\<newline>''
        @ ''    {Opcode::NOP},\<newline>''
        @ ''    {Opcode::HLT},\<newline>''
        @ ''};\<newline>''"
  by (simp add: generate_loop_program instr0_def instr1_def writeToFile_def emit_line_def
      opcode_name_def operand_text_def text_simps)

section \<open>Encoding round trip\<close>

lemma in_table_size: "in_table c \<Longrightarrow> getInstructionSize c = 1 \<or> getInstructionSize c = 3"
  by (cases c) (simp_all add: in_table_def)

lemma opcode_of_byte_inverse: "in_table c \<Longrightarrow> opcode_of_byte (byte_of_opcode c) = c"
  by (cases c) (simp_all add: in_table_def opcode_of_byte_def)

lemma load_instr_1:
  "getInstructionSize (op x) = 1 \<Longrightarrow>
   load_instr s x = s\<lparr>memory := (memory s)(breakLine s := byte_of_opcode (op x)),
                      breakLine := breakLine s + 1\<rparr>"
  by (simp add: load_instr_def)

lemma load_instr_3:
  "getInstructionSize (op x) = 3 \<Longrightarrow>
   load_instr s x = s\<lparr>memory := (memory s)(breakLine s := byte_of_opcode (op x),
                                              breakLine s + 1 := ucast (a1 x),
                                              breakLine s + 2 := ucast (drop_bit 8 (a1 x))),
                      breakLine := breakLine s + 3\<rparr>"
  by (simp add: load_instr_def Let_def add.assoc)

lemma breakLine_load_instr:
  "in_table (op x) \<Longrightarrow>
   breakLine (load_instr s x) = breakLine s + of_nat (getInstructionSize (op x))"
  using in_table_size [of "op x"] by (auto simp add: load_instr_1 load_instr_3)

lemma breakLine_foldl:
  "list_all (\<lambda>i. in_table (op i)) xs \<Longrightarrow>
   breakLine (foldl load_instr s xs) = breakLine s + of_nat (program_size xs)"
  by (induction xs arbitrary: s) (simp_all add: program_size_def breakLine_load_instr)

lemma read16_bytes: "ucast (ucast w :: 8 word) OR push_bit 8 (ucast (ucast (drop_bit 8 w) :: 8 word)) = w"
  for w :: "16 word"
  by (rule bit_word_eqI) (auto simp add: bit_simps)

lemma unat_sub_small: "n \<le> unat d \<Longrightarrow> unat (d - of_nat n) = unat d - n" for d :: "16 word"
proof -
  assume h: "n \<le> unat d"
  then have n: "unat (of_nat n :: 16 word) = n" by (rule le_unat_uoi)
  with h have "(of_nat n :: 16 word) \<le> d" by (simp add: word_le_nat_alt)
  then show ?thesis using n by (simp add: unat_sub)
qed

lemma addr_outside: "n \<le> unat (a - b) \<Longrightarrow> k < n \<Longrightarrow> a \<noteq> b + of_nat k" for a b :: "16 word"
proof
  assume h: "n \<le> unat (a - b)" "k < n" "a = b + of_nat k"
  have "unat (a - b) < 65536" using unsigned_less [of "a - b"] by simp
  with h have "k < 65536" by simp
  moreover from h have "a - b = of_nat k" by simp
  ultimately have "unat (a - b) = k" by (simp add: unat_of_nat)
  with h show False by simp
qed

lemma load_instr_frame:
  assumes "in_table (op x)" and "getInstructionSize (op x) \<le> unat (a - breakLine s)"
  shows "memory (load_instr s x) a = memory s a"
proof -
  from in_table_size [OF assms(1)] show ?thesis
  proof
    assume 1: "getInstructionSize (op x) = 1"
    with assms(2) addr_outside [of 1 a "breakLine s" 0] show ?thesis
      by (simp add: load_instr_1)
  next
    assume 3: "getInstructionSize (op x) = 3"
    with assms(2) addr_outside [of 3 a "breakLine s" 0] addr_outside [of 3 a "breakLine s" 1]
      addr_outside [of 3 a "breakLine s" 2]
    show ?thesis by (simp add: load_instr_3)
  qed
qed

lemma foldl_load_frame:
  "list_all (\<lambda>i. in_table (op i)) xs \<Longrightarrow> program_size xs \<le> unat (a - breakLine s) \<Longrightarrow>
   memory (foldl load_instr s xs) a = memory s a"
proof (induction xs arbitrary: s)
  case Nil
  then show ?case by simp
next
  case (Cons x xs)
  let ?n = "getInstructionSize (op x)"
  from Cons.prems have t: "in_table (op x)" "list_all (\<lambda>i. in_table (op i)) xs"
    and sz: "?n + program_size xs \<le> unat (a - breakLine s)"
    by (simp_all add: program_size_def)
  have e1: "a - breakLine (load_instr s x) = (a - breakLine s) - of_nat ?n"
    by (simp add: breakLine_load_instr t)
  from sz have e2: "unat ((a - breakLine s) - of_nat ?n) = unat (a - breakLine s) - ?n"
    by (simp add: unat_sub_small)
  from sz have "program_size xs \<le> unat (a - breakLine s) - ?n"
    by simp
  then have "program_size xs \<le> unat (a - breakLine (load_instr s x))"
    by (simp only: e1 e2)
  with Cons.IH t have "memory (foldl load_instr (load_instr s x) xs) a = memory (load_instr s x) a"
    by blast
  also have "\<dots> = memory s a" using t sz by (simp add: load_instr_frame)
  finally show ?case by simp
qed

lemma neg_word16: "(- 1 :: 16 word) = 65535" "(- 2 :: 16 word) = 65534" "(- 3 :: 16 word) = 65533"
  by simp_all

lemma neg_unat16: "unat (- 1 :: 16 word) = 65535" "unat (- 2 :: 16 word) = 65534"
  "unat (- 3 :: 16 word) = 65533"
  by (simp_all only: neg_word16) simp_all

lemma fetch_loaded:
  assumes c: "canonical x" and t: "list_all (\<lambda>i. in_table (op i)) xs"
    and sz: "getInstructionSize (op x) + program_size xs \<le> 65536"
  shows "fetchNextInstruction ((foldl load_instr (load_instr s x) xs)\<lparr>ip := breakLine s\<rparr>)
         = (x, (foldl load_instr (load_instr s x) xs)
                 \<lparr>ip := breakLine s + of_nat (getInstructionSize (op x))\<rparr>)"
proof -
  let ?b = "breakLine s"
  let ?s1 = "load_instr s x"
  let ?S = "foldl load_instr ?s1 xs"
  from c have it: "in_table (op x)" and z2: "a2 x = 0"
    and z1: "getInstructionSize (op x) = 3 \<or> a1 x = 0"
    by (simp_all add: canonical_def)
  from in_table_size [OF it] show ?thesis
  proof
    assume 1: "getInstructionSize (op x) = 1"
    then have b1: "breakLine ?s1 = ?b + 1" by (simp add: load_instr_1)
    have "program_size xs \<le> unat (?b - breakLine ?s1)"
      using sz 1 by (simp add: b1 neg_unat16)
    then have "memory ?S ?b = memory ?s1 ?b"
      using t by (rule foldl_load_frame [rotated])
    then have m: "memory ?S ?b = byte_of_opcode (op x)"
      by (simp add: load_instr_1 1)
    from 1 z1 have "a1 x = 0" by simp
    with z2 have "\<lparr>op = op x, a1 = 0, a2 = 0\<rparr> = x" by (cases x) simp
    then show ?thesis
      by (simp add: fetchNextInstruction_def m opcode_of_byte_inverse it 1)
  next
    assume 3: "getInstructionSize (op x) = 3"
    then have b1: "breakLine ?s1 = ?b + 3" by (simp add: load_instr_3)
    have "program_size xs \<le> unat (?b - breakLine ?s1)"
      "program_size xs \<le> unat (?b + 1 - breakLine ?s1)"
      "program_size xs \<le> unat (?b + 2 - breakLine ?s1)"
      using sz 3 by (simp_all add: b1 neg_unat16)
    then have "memory ?S ?b = memory ?s1 ?b" "memory ?S (?b + 1) = memory ?s1 (?b + 1)"
      "memory ?S (?b + 2) = memory ?s1 (?b + 2)"
      using t by (simp_all add: foldl_load_frame)
    then have m: "memory ?S ?b = byte_of_opcode (op x)" "memory ?S (?b + 1) = ucast (a1 x)"
      "memory ?S (?b + 2) = ucast (drop_bit 8 (a1 x))"
      by (simp_all add: load_instr_3 3)
    from z2 have "\<lparr>op = op x, a1 = a1 x, a2 = 0\<rparr> = x" by (cases x) simp
    then show ?thesis
      by (simp add: fetchNextInstruction_def m opcode_of_byte_inverse it 3 read16_def
          read16_bytes add.assoc)
  qed
qed

lemma canonical_in_table: "list_all canonical xs \<Longrightarrow> list_all (\<lambda>i. in_table (op i)) xs"
  by (induction xs) (simp_all add: canonical_def)

lemma decode_foldl:
  "list_all canonical xs \<Longrightarrow> program_size xs \<le> 65536 \<Longrightarrow>
   decode_image ((foldl load_instr s xs)\<lparr>ip := breakLine s\<rparr>) (program_size xs) = Some xs"
proof (induction xs arbitrary: s)
  case Nil
  show ?case by (subst decode_image.simps) (simp add: program_size_def)
next
  case (Cons x xs)
  let ?n = "getInstructionSize (op x)"
  from Cons.prems have c: "canonical x" "list_all canonical xs"
    and sz: "?n + program_size xs \<le> 65536"
    by (simp_all add: program_size_def)
  from c have it: "in_table (op x)" by (simp add: canonical_def)
  from in_table_size [OF it] have pos: "?n \<noteq> 0" by auto
  have f: "fetchNextInstruction ((foldl load_instr (load_instr s x) xs)\<lparr>ip := breakLine s\<rparr>)
         = (x, (foldl load_instr (load_instr s x) xs)\<lparr>ip := breakLine s + of_nat ?n\<rparr>)"
    using c(1) canonical_in_table [OF c(2)] sz by (rule fetch_loaded)
  from sz have "program_size xs \<le> 65536" by simp
  with Cons.IH [OF c(2), of "load_instr s x"]
  have ih: "decode_image ((foldl load_instr (load_instr s x) xs)\<lparr>ip := breakLine s + of_nat ?n\<rparr>)
              (program_size xs) = Some xs"
    by (simp add: breakLine_load_instr it)
  have ps: "program_size (x # xs) = ?n + program_size xs" by (simp add: program_size_def)
  show ?case
    by (subst decode_image.simps) (simp add: ps pos f ih)
qed

text \<open>
  Claim C3, as stated, fails twice. An instruction whose opcode has no operand is
  stored as its opcode byte alone, so a non-zero \<open>a1\<close> is lost: \<open>{NOP, 1, 0}\<close> decodes
  to \<open>{NOP, 0, 0}\<close>. And \<open>breakLine\<close> is a 16-bit counter: a program of more than
  65536 bytes wraps around and overwrites its own beginning; after 65536 \<open>NOP\<close>s a
  final \<open>HLT\<close> is stored at address 0, so the decoded list starts with \<open>HLT\<close>.
\<close>

theorem roundtrip_counterexample:
  "decode_image ((loadProgram [\<lparr>op = NOP, a1 = 1, a2 = 0\<rparr>] init_vm)\<lparr>ip := 0\<rparr>)
       (program_size [\<lparr>op = NOP, a1 = 1, a2 = 0\<rparr>])
     = Some [\<lparr>op = NOP, a1 = 0, a2 = 0\<rparr>]
   \<and> [\<lparr>op = NOP, a1 = 0, a2 = 0\<rparr>] \<noteq> [\<lparr>op = NOP, a1 = 1, a2 = 0\<rparr>]
   \<and> decode_image ((loadProgram (replicate 65536 (instr0 NOP) @ [instr0 HLT]) init_vm)\<lparr>ip := 0\<rparr>)
       (program_size (replicate 65536 (instr0 NOP) @ [instr0 HLT]))
     \<noteq> Some (replicate 65536 (instr0 NOP) @ [instr0 HLT])"
proof -
  have one: "decode_image ((loadProgram [\<lparr>op = NOP, a1 = 1, a2 = 0\<rparr>] init_vm)\<lparr>ip := 0\<rparr>)
       (program_size [\<lparr>op = NOP, a1 = 1, a2 = 0\<rparr>]) = Some [\<lparr>op = NOP, a1 = 0, a2 = 0\<rparr>]"
    apply (simp add: program_size_def loadProgram_def load_instr_def init_vm_def)
    apply (subst decode_image.simps, simp add: fetchNextInstruction_def opcode_of_byte_def)
    apply (subst decode_image.simps, simp)
    done
  let ?L = "replicate 65536 (instr0 NOP) @ [instr0 HLT]"
  let ?s = "foldl load_instr (init_vm\<lparr>breakLine := 0\<rparr>) (replicate 65536 (instr0 NOP))"
  have t: "list_all (\<lambda>i. in_table (op i)) (replicate 65536 (instr0 NOP))"
    by (simp add: list_all_iff instr0_def in_table_def)
  have ps: "program_size (replicate 65536 (instr0 NOP)) = 65536"
    by (simp add: program_size_def instr0_def sum_list_replicate)
  have "breakLine ?s = 0"
    by (simp add: breakLine_foldl [OF t] ps)
  then have m: "memory (loadProgram ?L init_vm) 0 = 0x02"
    by (simp add: loadProgram_def load_instr_1 instr0_def)
  have n: "program_size ?L \<noteq> 0"
    by (simp add: program_size_def instr0_def)
  have "decode_image ((loadProgram ?L init_vm)\<lparr>ip := 0\<rparr>) (program_size ?L) \<noteq> Some ?L"
  proof
    assume a: "decode_image ((loadProgram ?L init_vm)\<lparr>ip := 0\<rparr>) (program_size ?L) = Some ?L"
    have "\<exists>r. \<lparr>op = HLT, a1 = 0, a2 = 0\<rparr> # r = ?L"
      using a
      by (subst (asm) decode_image.simps)
        (auto simp add: n fetchNextInstruction_def m opcode_of_byte_def split: Option.bind_splits)
    then have "hd ?L = \<lparr>op = HLT, a1 = 0, a2 = 0\<rparr>" by (metis list.sel(1))
    moreover have "hd ?L = instr0 NOP"
      by (simp add: hd_append)
    ultimately show False by (simp add: instr0_def)
  qed
  with one show ?thesis by simp
qed

text \<open>
  Claim C3, amended. For every list \<open>L\<close> of instructions whose opcodes are in the table,
  whose \<open>a2\<close> is zero and whose \<open>a1\<close> is zero where the opcode has no operand, and whose
  encoding is at most 65536 bytes long, decoding the image that \<open>loadProgram\<close> writes,
  from address 0 and for as many bytes as \<open>L\<close> occupies, terminates and yields exactly
  \<open>L\<close>; \<open>breakLine\<close> is then the length of the image modulo \<open>2^16\<close>.
\<close>

theorem encoding_roundtrip:
  assumes "list_all canonical L" and "program_size L \<le> 65536"
  shows "decode_image ((loadProgram L s)\<lparr>ip := 0\<rparr>) (program_size L) = Some L
         \<and> breakLine (loadProgram L s) = of_nat (program_size L)"
proof
  show "decode_image ((loadProgram L s)\<lparr>ip := 0\<rparr>) (program_size L) = Some L"
    using decode_foldl [OF assms, of "s\<lparr>breakLine := 0\<rparr>"] by (simp add: loadProgram_def)
  show "breakLine (loadProgram L s) = of_nat (program_size L)"
    using breakLine_foldl [OF canonical_in_table [OF assms(1)], of "s\<lparr>breakLine := 0\<rparr>"]
    by (simp add: loadProgram_def)
qed

theorem encoding_roundtrip_witness:
  "list_all canonical [instr1 MOV 0x1234, instr1 JZ 3, instr0 HLT]
   \<and> program_size [instr1 MOV 0x1234, instr1 JZ 3, instr0 HLT] \<le> 65536
   \<and> decode_image ((loadProgram [instr1 MOV 0x1234, instr1 JZ 3, instr0 HLT] init_vm)\<lparr>ip := 0\<rparr>) 7
       = Some [instr1 MOV 0x1234, instr1 JZ 3, instr0 HLT]
   \<and> breakLine (loadProgram [instr1 MOV 0x1234, instr1 JZ 3, instr0 HLT] init_vm) = 7"
proof -
  have c: "list_all canonical [instr1 MOV 0x1234, instr1 JZ 3, instr0 HLT]"
    by (simp add: canonical_def in_table_def instr0_def instr1_def)
  have p: "program_size [instr1 MOV 0x1234, instr1 JZ 3, instr0 HLT] = 7"
    by (simp add: program_size_def instr0_def instr1_def)
  then have q: "program_size [instr1 MOV 0x1234, instr1 JZ 3, instr0 HLT] \<le> 65536"
    by simp
  from encoding_roundtrip [OF c q, of init_vm] c p show ?thesis by simp
qed

section \<open>Label bookkeeping of the code generator\<close>

lemma labels_ok_cerr [simp]:
  "(\<forall>l. UnknownLabelID l \<notin> set d) \<Longrightarrow> labels_ok L (st\<lparr>cerr := cerr st @ d\<rparr>) = labels_ok L st"
  by (auto simp add: labels_ok_def)

lemma labels_ok_symbols [simp]:
  "labels_ok L (st\<lparr>nextRegister := n, symbolTable := t\<rparr>) = labels_ok L st"
  by (simp add: labels_ok_def)

lemma labels_ok_counter [simp]: "labels_ok L (st\<lparr>labelCounter := n\<rparr>) = labels_ok L st"
  by (simp add: labels_ok_def)

lemma labels_ok_mono: "labels_ok L st \<Longrightarrow> L \<subseteq> L' \<Longrightarrow> labels_ok L' st"
  unfolding labels_ok_def by blast

lemma labels_ok_emit:
  assumes "labels_ok L st" and "\<not> is_jump (op i)"
  shows "labels_ok L (emit i st)"
proof -
  let ?xs = "instructions st"
  have nth: "\<And>k. k < length ?xs \<Longrightarrow> (?xs @ [i]) ! k = ?xs ! k"
    by (simp add: nth_append)
  have last: "\<And>k. k < length (?xs @ [i]) \<Longrightarrow> is_jump (op ((?xs @ [i]) ! k)) \<Longrightarrow> k < length ?xs"
    using assms(2) by (auto simp add: nth_append less_Suc_eq split: if_splits)
  show ?thesis
    unfolding labels_ok_def emit_def
  proof (intro conjI ballI allI impI)
    fix p assume p: "p \<in> set (labelPlaceholders (st\<lparr>instructions := ?xs @ [i]\<rparr>))"
    with assms(1) have a: "snd p \<in> dom (labelTargets st) \<or> snd p \<in> L"
      "fst p < length ?xs" "is_jump (op (?xs ! fst p))"
      by (auto simp add: labels_ok_def)
    from a(1) show "snd p \<in> dom (labelTargets (st\<lparr>instructions := ?xs @ [i]\<rparr>)) \<or> snd p \<in> L"
      by simp
    from a(2) show "fst p < length (instructions (st\<lparr>instructions := ?xs @ [i]\<rparr>))"
      by simp
    from a(2,3) show "is_jump (op (instructions (st\<lparr>instructions := ?xs @ [i]\<rparr>) ! fst p))"
      by (simp add: nth)
  next
    fix l t assume "labelTargets (st\<lparr>instructions := ?xs @ [i]\<rparr>) l = Some t"
    with assms(1) have "t \<le> length ?xs" by (auto simp add: labels_ok_def)
    then show "t \<le> length (instructions (st\<lparr>instructions := ?xs @ [i]\<rparr>))" by simp
  next
    fix k assume k: "k < length (instructions (st\<lparr>instructions := ?xs @ [i]\<rparr>))"
      "is_jump (op (instructions (st\<lparr>instructions := ?xs @ [i]\<rparr>) ! k))"
    then have kl: "k < length ?xs" using last [of k] by simp
    with k(2) have "is_jump (op (?xs ! k))" by (simp add: nth)
    with kl assms(1) have "k \<in> fst ` set (labelPlaceholders st)"
      by (simp add: labels_ok_def)
    then show "k \<in> fst ` set (labelPlaceholders (st\<lparr>instructions := ?xs @ [i]\<rparr>))" by simp
  next
    fix l show "UnknownLabelID l \<notin> set (cerr (st\<lparr>instructions := ?xs @ [i]\<rparr>))"
      using assms(1) by (simp add: labels_ok_def)
  next
    show "distinct (map fst (labelPlaceholders (st\<lparr>instructions := ?xs @ [i]\<rparr>)))"
      using assms(1) by (simp add: labels_ok_def)
  qed
qed

lemma labels_ok_jump:
  assumes "labels_ok L st" and "is_jump c"
  shows "labels_ok (insert l L) (emitJumpPlaceholder c l st)"
proof -
  let ?xs = "instructions st"
  let ?j = "instr1 c 0"
  let ?st' = "emitJumpPlaceholder c l st"
  have i: "instructions ?st' = ?xs @ [?j]"
    and ph: "labelPlaceholders ?st' = labelPlaceholders st @ [(length ?xs, l)]"
    and lt: "labelTargets ?st' = labelTargets st" and ce: "cerr ?st' = cerr st"
    by (simp_all add: emitJumpPlaceholder_def emit_def)
  have nth: "\<And>k. k < length ?xs \<Longrightarrow> (?xs @ [?j]) ! k = ?xs ! k"
    by (simp add: nth_append)
  have opj: "op ?j = c" by (simp add: instr1_def)
  show ?thesis
    unfolding labels_ok_def i ph lt ce
  proof (intro conjI ballI allI impI)
    fix p assume p: "p \<in> set (labelPlaceholders st @ [(length ?xs, l)])"
    show "snd p \<in> dom (labelTargets st) \<or> snd p \<in> insert l L"
      using p assms(1) by (auto simp add: labels_ok_def)
    show "fst p < length (?xs @ [?j])"
      using p assms(1) by (auto simp add: labels_ok_def less_Suc_eq)
    show "is_jump (op ((?xs @ [?j]) ! fst p))"
    proof (cases "p = (length ?xs, l)")
      case True
      then show ?thesis using assms(2) by (simp add: opj)
    next
      case False
      with p assms(1) have "fst p < length ?xs" "is_jump (op (?xs ! fst p))"
        by (auto simp add: labels_ok_def)
      then show ?thesis by (simp add: nth)
    qed
  next
    fix la t assume "labelTargets st la = Some t"
    with assms(1) have "t \<le> length ?xs" by (auto simp add: labels_ok_def)
    then show "t \<le> length (?xs @ [?j])" by simp
  next
    fix k assume k: "k < length (?xs @ [?j])" "is_jump (op ((?xs @ [?j]) ! k))"
    show "k \<in> fst ` set (labelPlaceholders st @ [(length ?xs, l)])"
    proof (cases "k < length ?xs")
      case True
      with k(2) have "is_jump (op (?xs ! k))" by (simp add: nth)
      with True assms(1) have "k \<in> fst ` set (labelPlaceholders st)"
        by (simp add: labels_ok_def)
      then show ?thesis by auto
    next
      case False
      with k(1) have "k = length ?xs" by simp
      then show ?thesis by simp
    qed
  next
    fix la show "UnknownLabelID la \<notin> set (cerr st)"
      using assms(1) by (simp add: labels_ok_def)
  next
    have "\<forall>p \<in> set (labelPlaceholders st). fst p < length ?xs"
      using assms(1) by (simp add: labels_ok_def)
    then have "length ?xs \<notin> fst ` set (labelPlaceholders st)" by auto
    then show "distinct (map fst (labelPlaceholders st @ [(length ?xs, l)]))"
      using assms(1) by (simp add: labels_ok_def)
  qed
qed

lemma labels_ok_mark:
  assumes "labels_ok (insert l L) st"
  shows "labels_ok L (markLabel l st)"
  using assms unfolding labels_ok_def markLabel_def
  by (auto split: if_splits)

lemma labels_ok_mark': "labels_ok L st \<Longrightarrow> labels_ok L (markLabel l st)"
  by (rule labels_ok_mark) (erule labels_ok_mono, blast)

lemma not_jump [simp]:
  "\<not> is_jump (op (instr1 MOV x))" "\<not> is_jump (op (instr1 PUSH x))"
  "\<not> is_jump (op (instr1 POP x))" "\<not> is_jump (op (instr0 ADD))" "\<not> is_jump (op (instr0 SUB))"
  "\<not> is_jump (op (instr0 MUL))" "\<not> is_jump (op (instr0 DIV))" "\<not> is_jump (op (instr0 STE))"
  "\<not> is_jump (op (instr0 STG))" "\<not> is_jump (op (instr0 STL))" "\<not> is_jump (op (instr0 CLE))"
  "\<not> is_jump (op (instr0 PRN))" "\<not> is_jump (op (instr0 HLT))"
  by (simp_all add: is_jump_def instr0_def instr1_def)

lemma labels_ok_genExpression: "labels_ok L st \<Longrightarrow> labels_ok L (genExpression e st)"
proof (induction e arbitrary: st)
  case (NumberExpr v)
  then show ?case by (simp add: labels_ok_emit)
next
  case (VariableExpr name)
  have "labels_ok L (st\<lparr>cerr := cerr st @ [UnknownVariable name]\<rparr>)"
    using VariableExpr by simp
  with VariableExpr show ?case
    by (auto simp add: labels_ok_emit split: option.splits)
next
  case (BinaryExpr bop l r)
  then show ?case
    by (cases bop) (simp_all add: Let_def labels_ok_emit)
next
  case NullExpr
  then show ?case by simp
qed

lemma labels_ok_prelude: "labels_ok L st \<Longrightarrow> labels_ok L (emit_prelude st)"
  by (simp add: emit_prelude_def labels_ok_emit)

lemma labels_ok_fold:
  assumes "\<And>s L st. s \<in> set ss \<Longrightarrow> labels_ok L st \<Longrightarrow> labels_ok L (genStatement s st)"
    and "labels_ok L st"
  shows "labels_ok L (fold genStatement ss st)"
  using assms by (induction ss arbitrary: st) simp_all

lemma labels_ok_marked:
  "l \<in> dom (labelTargets st) \<Longrightarrow> labels_ok (insert l L) st \<Longrightarrow> labels_ok L st"
  unfolding labels_ok_def by blast

lemma targets_emit [simp]: "labelTargets (emit i st) = labelTargets st"
  by (simp add: emit_def)

lemma targets_genExpression [simp]: "labelTargets (genExpression e st) = labelTargets st"
proof (induction e arbitrary: st)
  case (BinaryExpr bop l r)
  then show ?case by (cases bop) (simp_all add: Let_def)
qed (simp_all split: option.splits)

lemma targets_prelude: "labelTargets (emit_prelude st) = labelTargets st"
  by (simp add: emit_prelude_def)

lemma targets_jump: "labelTargets (emitJumpPlaceholder c l st) = labelTargets st"
  by (simp add: emitJumpPlaceholder_def)

lemma dom_targets_mark: "dom (labelTargets st) \<subseteq> dom (labelTargets (markLabel l st))"
  by (auto simp add: markLabel_def)

lemma dom_targets_fold_aux:
  assumes "\<And>s st. s \<in> set ss \<Longrightarrow> dom (labelTargets st) \<subseteq> dom (labelTargets (genStatement s st))"
  shows "dom (labelTargets st) \<subseteq> dom (labelTargets (fold genStatement ss st))"
  using assms
proof (induction ss arbitrary: st)
  case Nil
  then show ?case by simp
next
  case (Cons a ss)
  have "dom (labelTargets st) \<subseteq> dom (labelTargets (genStatement a st))"
    using Cons.prems by simp
  also have "\<dots> \<subseteq> dom (labelTargets (fold genStatement ss (genStatement a st)))"
    using Cons.prems by (intro Cons.IH) simp
  finally show ?case by simp
qed

lemma dom_targets_genStatement:
  "dom (labelTargets st) \<subseteq> dom (labelTargets (genStatement s st))"
proof (induction s arbitrary: st)
  case (LetStatement name val)
  show ?case by (auto simp add: Let_def split: option.splits)
next
  case (PrintStatement e)
  show ?case by simp
next
  case (IfStatement c t e)
  let ?st3 = "emit_prelude (genExpression c st)"
  let ?el = "labelCounter ?st3"
  let ?en = "labelCounter ?st3 + 1"
  let ?st3' = "?st3\<lparr>labelCounter := ?el + 1, labelCounter := ?el + 1 + 1\<rparr>"
  let ?st4 = "emitJumpPlaceholder JZ ?el ?st3'"
  let ?st5 = "fold genStatement t ?st4"
  let ?st6 = "emitJumpPlaceholder JMP ?en ?st5"
  let ?st8 = "fold genStatement e (markLabel ?el ?st6)"
  have g: "genStatement (IfStatement c t e) st = markLabel ?en ?st8"
    by (simp add: newLabel_def Let_def)
  have "dom (labelTargets st) = dom (labelTargets ?st4)"
    by (simp add: targets_prelude targets_jump)
  also have "\<dots> \<subseteq> dom (labelTargets ?st5)"
    using IfStatement.IH(1) by (intro dom_targets_fold_aux) auto
  also have "\<dots> = dom (labelTargets ?st6)"
    by (simp add: targets_jump)
  also have "\<dots> \<subseteq> dom (labelTargets (markLabel ?el ?st6))"
    by (rule dom_targets_mark)
  also have "\<dots> \<subseteq> dom (labelTargets ?st8)"
    using IfStatement.IH(2) by (intro dom_targets_fold_aux) auto
  also have "\<dots> \<subseteq> dom (labelTargets (markLabel ?en ?st8))"
    by (rule dom_targets_mark)
  finally show ?case unfolding g .
next
  case (WhileStatement c b)
  let ?cl = "labelCounter st"
  let ?en = "labelCounter st + 1"
  let ?st2 = "st\<lparr>labelCounter := ?cl + 1, labelCounter := ?cl + 1 + 1\<rparr>"
  let ?st4 = "emit_prelude (genExpression c (markLabel ?cl ?st2))"
  let ?st5 = "emitJumpPlaceholder JZ ?en ?st4"
  let ?st6 = "fold genStatement b ?st5"
  let ?st7 = "emitJumpPlaceholder JMP ?cl ?st6"
  have g: "genStatement (WhileStatement c b) st = markLabel ?en ?st7"
    by (simp add: newLabel_def Let_def)
  have "dom (labelTargets st) \<subseteq> dom (labelTargets (markLabel ?cl ?st2))"
    by (auto simp add: markLabel_def)
  also have "\<dots> = dom (labelTargets ?st5)"
    by (simp add: targets_prelude targets_jump)
  also have "\<dots> \<subseteq> dom (labelTargets ?st6)"
    using WhileStatement.IH by (intro dom_targets_fold_aux) auto
  also have "\<dots> = dom (labelTargets ?st7)"
    by (simp add: targets_jump)
  also have "\<dots> \<subseteq> dom (labelTargets (markLabel ?en ?st7))"
    by (rule dom_targets_mark)
  finally show ?case unfolding g .
qed

lemma dom_targets_fold:
  "dom (labelTargets st) \<subseteq> dom (labelTargets (fold genStatement ss st))"
  by (rule dom_targets_fold_aux) (rule dom_targets_genStatement)

lemma labels_ok_genStatement: "labels_ok L st \<Longrightarrow> labels_ok L (genStatement s st)"
proof (induction s arbitrary: L st)
  case (LetStatement name val)
  then show ?case
    by (auto simp add: Let_def labels_ok_emit labels_ok_genExpression split: option.splits)
next
  case (PrintStatement e)
  then show ?case by (simp add: labels_ok_emit labels_ok_genExpression)
next
  case (IfStatement c t e)
  let ?st3 = "emit_prelude (genExpression c st)"
  let ?el = "labelCounter ?st3"
  let ?en = "labelCounter ?st3 + 1"
  let ?st3' = "?st3\<lparr>labelCounter := ?el + 1, labelCounter := ?el + 1 + 1\<rparr>"
  let ?st4 = "emitJumpPlaceholder JZ ?el ?st3'"
  let ?st5 = "fold genStatement t ?st4"
  let ?st6 = "emitJumpPlaceholder JMP ?en ?st5"
  let ?st8 = "fold genStatement e (markLabel ?el ?st6)"
  have g: "genStatement (IfStatement c t e) st = markLabel ?en ?st8"
    by (simp add: newLabel_def Let_def)
  have "labels_ok L ?st3'"
    using IfStatement.prems by (simp add: labels_ok_prelude labels_ok_genExpression)
  then have "labels_ok (insert ?el L) ?st4"
    by (rule labels_ok_jump) (simp add: is_jump_def)
  then have "labels_ok (insert ?el L) ?st5"
    using IfStatement.IH(1) by (intro labels_ok_fold) auto
  then have "labels_ok (insert ?en (insert ?el L)) ?st6"
    by (rule labels_ok_jump) (simp add: is_jump_def)
  then have "labels_ok (insert ?el (insert ?en L)) ?st6"
    by (simp add: insert_commute)
  then have "labels_ok (insert ?en L) (markLabel ?el ?st6)"
    by (rule labels_ok_mark)
  then have "labels_ok (insert ?en L) ?st8"
    using IfStatement.IH(2) by (intro labels_ok_fold) auto
  then show ?case unfolding g by (rule labels_ok_mark)
next
  case (WhileStatement c b)
  let ?cl = "labelCounter st"
  let ?en = "labelCounter st + 1"
  let ?st2 = "st\<lparr>labelCounter := ?cl + 1, labelCounter := ?cl + 1 + 1\<rparr>"
  let ?st4 = "emit_prelude (genExpression c (markLabel ?cl ?st2))"
  let ?st5 = "emitJumpPlaceholder JZ ?en ?st4"
  let ?st6 = "fold genStatement b ?st5"
  let ?st7 = "emitJumpPlaceholder JMP ?cl ?st6"
  have g: "genStatement (WhileStatement c b) st = markLabel ?en ?st7"
    by (simp add: newLabel_def Let_def)
  have "labels_ok L ?st2" using WhileStatement.prems by simp
  then have "labels_ok L ?st4"
    by (simp add: labels_ok_mark' labels_ok_prelude labels_ok_genExpression)
  then have "labels_ok (insert ?en L) ?st5"
    by (rule labels_ok_jump) (simp add: is_jump_def)
  then have s6: "labels_ok (insert ?en L) ?st6"
    using WhileStatement.IH by (intro labels_ok_fold) auto
  have "?cl \<in> dom (labelTargets (markLabel ?cl ?st2))"
    by (simp add: markLabel_def)
  then have "?cl \<in> dom (labelTargets ?st5)"
    by (simp add: targets_prelude targets_jump)
  then have "?cl \<in> dom (labelTargets ?st7)"
    using dom_targets_fold [of ?st5 b] by (auto simp add: targets_jump)
  moreover from s6 have "labels_ok (insert ?cl (insert ?en L)) ?st7"
    by (rule labels_ok_jump) (simp add: is_jump_def)
  ultimately have "labels_ok (insert ?en L) ?st7"
    by (rule labels_ok_marked)
  then show ?case unfolding g by (rule labels_ok_mark)
qed

lemma labels_ok_init: "labels_ok {} init_codegen"
  by (simp add: labels_ok_def init_codegen_def)

lemma labels_ok_lowered: "labels_ok {} (lowered P)"
  unfolding lowered_def
  by (intro labels_ok_emit labels_ok_fold labels_ok_genStatement labels_ok_init) simp_all

lemma targets_lowered:
  assumes "labelTargets (lowered P) l = Some t"
  shows "t < length (instructions (lowered P))"
proof -
  let ?st = "fold genStatement P init_codegen"
  have "labels_ok {} ?st"
    by (intro labels_ok_fold labels_ok_genStatement labels_ok_init)
  moreover from assms have "labelTargets ?st l = Some t" by (simp add: lowered_def)
  ultimately have "t \<le> length (instructions ?st)" unfolding labels_ok_def by blast
  then show ?thesis by (simp add: lowered_def emit_def)
qed

lemma placeholders_marked:
  "p \<in> set (labelPlaceholders (lowered P)) \<Longrightarrow> snd p \<in> dom (labelTargets (lowered P))"
  using labels_ok_lowered [of P] unfolding labels_ok_def by blast

subsection \<open>Patching\<close>

lemma patch_one_known:
  "labelTargets st (snd p) = Some t \<Longrightarrow>
   patch_one p st = st\<lparr>instructions :=
       (instructions st)[fst p := (instructions st ! fst p)\<lparr>a1 := of_nat t\<rparr>]\<rparr>"
  by (simp add: patch_one_def)

lemma patch_fold_frame:
  assumes "\<forall>p \<in> set ps. snd p \<in> dom (labelTargets st)"
  shows "labelTargets (fold patch_one ps st) = labelTargets st
       \<and> cerr (fold patch_one ps st) = cerr st
       \<and> labelPlaceholders (fold patch_one ps st) = labelPlaceholders st
       \<and> length (instructions (fold patch_one ps st)) = length (instructions st)"
  using assms
proof (induction ps arbitrary: st)
  case Nil
  then show ?case by simp
next
  case (Cons p ps)
  then obtain t where t: "labelTargets st (snd p) = Some t" by auto
  let ?st' = "patch_one p st"
  have f: "labelTargets ?st' = labelTargets st" "cerr ?st' = cerr st"
    "labelPlaceholders ?st' = labelPlaceholders st"
    "length (instructions ?st') = length (instructions st)"
    by (simp_all add: patch_one_known [OF t])
  with Cons.prems have "\<forall>q \<in> set ps. snd q \<in> dom (labelTargets ?st')" by simp
  from Cons.IH [OF this] f show ?case by simp
qed

lemma patch_fold_op:
  assumes "\<forall>p \<in> set ps. snd p \<in> dom (labelTargets st)" and "i < length (instructions st)"
  shows "op (instructions (fold patch_one ps st) ! i) = op (instructions st ! i)"
  using assms
proof (induction ps arbitrary: st)
  case Nil
  then show ?case by simp
next
  case (Cons p ps)
  then obtain t where t: "labelTargets st (snd p) = Some t" by auto
  let ?st' = "patch_one p st"
  have f: "labelTargets ?st' = labelTargets st"
    "length (instructions ?st') = length (instructions st)"
    by (simp_all add: patch_one_known [OF t])
  with Cons.prems have "\<forall>q \<in> set ps. snd q \<in> dom (labelTargets ?st')"
    "i < length (instructions ?st')" by simp_all
  from Cons.IH [OF this]
  have "op (instructions (fold patch_one (p # ps) st) ! i) = op (instructions ?st' ! i)"
    by simp
  also have "\<dots> = op (instructions st ! i)"
    using Cons.prems(2) by (cases "fst p = i") (simp_all add: patch_one_known [OF t])
  finally show ?case .
qed

lemma patch_fold_other:
  assumes "\<forall>p \<in> set ps. snd p \<in> dom (labelTargets st)" and "i \<notin> fst ` set ps"
  shows "instructions (fold patch_one ps st) ! i = instructions st ! i"
  using assms
proof (induction ps arbitrary: st)
  case Nil
  then show ?case by simp
next
  case (Cons p ps)
  then obtain t where t: "labelTargets st (snd p) = Some t" by auto
  let ?st' = "patch_one p st"
  have f: "labelTargets ?st' = labelTargets st"
    by (simp add: patch_one_known [OF t])
  with Cons.prems have "\<forall>q \<in> set ps. snd q \<in> dom (labelTargets ?st')" "i \<notin> fst ` set ps"
    by simp_all
  from Cons.IH [OF this]
  have "instructions (fold patch_one (p # ps) st) ! i = instructions ?st' ! i" by simp
  also have "\<dots> = instructions st ! i"
    using Cons.prems(2) by (simp add: patch_one_known [OF t])
  finally show ?case .
qed

lemma patch_fold_target:
  assumes "\<forall>p \<in> set ps. snd p \<in> dom (labelTargets st)" and "distinct (map fst ps)"
    and "(i, l) \<in> set ps" and "i < length (instructions st)"
  shows "\<exists>t. labelTargets st l = Some t
            \<and> a1 (instructions (fold patch_one ps st) ! i) = of_nat t"
  using assms
proof (induction ps arbitrary: st)
  case Nil
  then show ?case by simp
next
  case (Cons p ps)
  then obtain t where t: "labelTargets st (snd p) = Some t" by auto
  let ?st' = "patch_one p st"
  have f: "labelTargets ?st' = labelTargets st"
    "length (instructions ?st') = length (instructions st)"
    by (simp_all add: patch_one_known [OF t])
  with Cons.prems have d: "\<forall>q \<in> set ps. snd q \<in> dom (labelTargets ?st')"
    "distinct (map fst ps)" "i < length (instructions ?st')" by simp_all
  show ?case
  proof (cases "(i, l) \<in> set ps")
    case True
    from Cons.IH [OF d(1,2) True d(3)] f show ?thesis by simp
  next
    case False
    with Cons.prems(3) have p: "p = (i, l)" by simp
    with Cons.prems(2) have "i \<notin> fst ` set ps" by simp
    with d(1) have "instructions (fold patch_one ps ?st') ! i = instructions ?st' ! i"
      by (rule patch_fold_other)
    moreover have "a1 (instructions ?st' ! i) = of_nat t"
    proof -
      from p have "fst p = i" by simp
      with Cons.prems(4) show ?thesis
        by (simp only: patch_one_known [OF t]) simp
    qed
    ultimately have "a1 (instructions (fold patch_one (p # ps) st) ! i) = of_nat t"
      by simp
    with t p show ?thesis by simp
  qed
qed

subsection \<open>The generated list\<close>

lemma length_generate: "length (generate P) = length (instructions (lowered P))"
  using patch_fold_frame [of "labelPlaceholders (lowered P)" "lowered P"] placeholders_marked
  by (simp add: generate_def generate_state_def patchJumps_def)

lemma op_generate:
  assumes "i < length (generate P)"
  shows "op (generate P ! i) = op (instructions (lowered P) ! i)"
proof -
  from assms have "i < length (instructions (lowered P))" by (simp add: length_generate)
  moreover have "\<forall>p \<in> set (labelPlaceholders (lowered P)). snd p \<in> dom (labelTargets (lowered P))"
    using placeholders_marked by blast
  ultimately show ?thesis
    using patch_fold_op [of "labelPlaceholders (lowered P)" "lowered P" i]
    by (simp add: generate_def generate_state_def patchJumps_def)
qed

lemma generate_patched:
  assumes "(i, l) \<in> set (labelPlaceholders (lowered P))"
  shows "\<exists>t. labelTargets (lowered P) l = Some t \<and> a1 (generate P ! i) = of_nat t"
proof -
  have ok: "labels_ok {} (lowered P)" by (rule labels_ok_lowered)
  then have "distinct (map fst (labelPlaceholders (lowered P)))"
    by (simp add: labels_ok_def)
  moreover from ok assms have "i < length (instructions (lowered P))"
    unfolding labels_ok_def by fastforce
  moreover have "\<forall>p \<in> set (labelPlaceholders (lowered P)). snd p \<in> dom (labelTargets (lowered P))"
    using placeholders_marked by blast
  ultimately show ?thesis
    using assms patch_fold_target [of "labelPlaceholders (lowered P)" "lowered P" i l]
    by (simp add: generate_def generate_state_def patchJumps_def)
qed

lemma generate_unpatched:
  assumes "i < length (generate P)" and "\<not> is_jump (op (generate P ! i))"
  shows "generate P ! i = instructions (lowered P) ! i"
proof -
  from assms have nj: "\<not> is_jump (op (instructions (lowered P) ! i))"
    by (simp add: op_generate)
  have "i \<notin> fst ` set (labelPlaceholders (lowered P))"
  proof
    assume "i \<in> fst ` set (labelPlaceholders (lowered P))"
    then obtain p where "p \<in> set (labelPlaceholders (lowered P))" "fst p = i" by auto
    with labels_ok_lowered [of P] have "is_jump (op (instructions (lowered P) ! i))"
      unfolding labels_ok_def by blast
    with nj show False by simp
  qed
  then show ?thesis
    using patch_fold_other [of "labelPlaceholders (lowered P)" "lowered P" i] placeholders_marked
    by (simp add: generate_def generate_state_def patchJumps_def)
qed

section \<open>Claims about the generated code\<close>

text \<open>
  Claim C4. For every program \<open>P\<close>, every instruction of \<open>generate P\<close> whose opcode is
  \<open>JMP\<close>, \<open>JZ\<close> or \<open>JNZ\<close> has an operand that, read as an unsigned number, is less
  than the length of \<open>generate P\<close>: it is a valid index into the returned list.
\<close>

theorem jump_targets_in_range:
  "\<forall>i \<in> set (generate P). op i \<in> {JMP, JZ, JNZ} \<longrightarrow> unat (a1 i) < length (generate P)"
proof (intro ballI impI)
  fix i assume i: "i \<in> set (generate P)" and j: "op i \<in> {JMP, JZ, JNZ}"
  from i obtain k where k: "k < length (generate P)" "generate P ! k = i"
    by (auto simp add: in_set_conv_nth)
  with j have "is_jump (op (instructions (lowered P) ! k))"
    using op_generate [of k P] by (auto simp add: is_jump_def)
  moreover from k have "k < length (instructions (lowered P))" by (simp add: length_generate)
  ultimately have "k \<in> fst ` set (labelPlaceholders (lowered P))"
    using labels_ok_lowered [of P] unfolding labels_ok_def by blast
  then obtain l where "(k, l) \<in> set (labelPlaceholders (lowered P))" by auto
  from generate_patched [OF this] obtain t
    where t: "labelTargets (lowered P) l = Some t" "a1 (generate P ! k) = of_nat t" by blast
  have "unat (of_nat t :: 16 word) \<le> t" by (simp add: unat_of_nat)
  also from t(1) have "t < length (instructions (lowered P))" by (rule targets_lowered)
  finally show "unat (a1 i) < length (generate P)"
    using t(2) k(2) by (simp add: length_generate)
qed

theorem jump_targets_in_range_witness:
  "instr1 JZ 9 \<in> set (generate loop_program) \<and> op (instr1 JZ 9) \<in> {JMP, JZ, JNZ}
   \<and> unat (a1 (instr1 JZ 9)) < length (generate loop_program)"
proof -
  have m: "instr1 JZ 9 \<in> set (generate loop_program)"
    by (simp add: generate_loop_program)
  have o: "op (instr1 JZ 9) \<in> {JMP, JZ, JNZ}" by (simp add: instr1_def)
  from jump_targets_in_range [of loop_program] m o show ?thesis by blast
qed

text \<open>
  Claim C10. For every program \<open>P\<close>, when \<open>patchJumps\<close> starts (the state \<open>lowered P\<close>)
  every placeholder's label has a target, so \<open>patchJumps\<close> writes that target into the
  operand of the placeholder's instruction, adds no diagnostic, and the diagnostics of
  \<open>generate\<close> contain no \<open>Unknown label ID\<close>.
\<close>

theorem unknown_label_unreachable:
  "(\<forall>p \<in> set (labelPlaceholders (lowered P)).
      \<exists>t. labelTargets (lowered P) (snd p) = Some t \<and> a1 (generate P ! fst p) = of_nat t)
   \<and> cerr (generate_state P) = cerr (lowered P)
   \<and> (\<forall>l. UnknownLabelID l \<notin> set (cerr (generate_state P)))"
proof (intro conjI ballI)
  fix p assume "p \<in> set (labelPlaceholders (lowered P))"
  then have "(fst p, snd p) \<in> set (labelPlaceholders (lowered P))" by simp
  then show "\<exists>t. labelTargets (lowered P) (snd p) = Some t \<and> a1 (generate P ! fst p) = of_nat t"
    by (rule generate_patched)
next
  have m: "\<forall>p \<in> set (labelPlaceholders (lowered P)). snd p \<in> dom (labelTargets (lowered P))"
    using placeholders_marked by blast
  show c: "cerr (generate_state P) = cerr (lowered P)"
    using patch_fold_frame [OF m] by (simp add: generate_state_def patchJumps_def)
  show "\<forall>l. UnknownLabelID l \<notin> set (cerr (generate_state P))"
    using labels_ok_lowered [of P] unfolding c labels_ok_def by blast
qed

theorem unknown_label_unreachable_witness:
  "(7, 1) \<in> set (labelPlaceholders (lowered loop_program))
   \<and> labelTargets (lowered loop_program) (snd (7 :: nat, 1 :: int)) = Some 9
   \<and> a1 (generate loop_program ! fst (7 :: nat, 1 :: int)) = of_nat 9
   \<and> cerr (generate_state loop_program) = []"
proof -
  have m: "(7, 1) \<in> set (labelPlaceholders (lowered loop_program))"
    "labelTargets (lowered loop_program) 1 = Some 9" "cerr (lowered loop_program) = []"
    by (simp_all add: loop_program_def codegen_simps)
  from unknown_label_unreachable [of loop_program] m
  have "\<exists>t. labelTargets (lowered loop_program) (snd (7 :: nat, 1 :: int)) = Some t
          \<and> a1 (generate loop_program ! fst (7 :: nat, 1 :: int)) = of_nat t"
    "cerr (generate_state loop_program) = []"
    by (blast, simp)
  with m show ?thesis by auto
qed

section \<open>Register allocation\<close>

lemma regs_ok_emit: "regs_ok N st \<Longrightarrow> regs_ok N (emit i st)"
  by (simp add: regs_ok_def emit_def)

lemma regs_ok_cerr [simp]: "regs_ok N (st\<lparr>cerr := d\<rparr>) = regs_ok N st"
  by (simp add: regs_ok_def)

lemma regs_ok_counter [simp]: "regs_ok N (st\<lparr>labelCounter := n\<rparr>) = regs_ok N st"
  by (simp add: regs_ok_def)

lemma regs_ok_mark: "regs_ok N st \<Longrightarrow> regs_ok N (markLabel l st)"
  by (simp add: regs_ok_def markLabel_def)

lemma regs_ok_jump: "regs_ok N st \<Longrightarrow> regs_ok N (emitJumpPlaceholder c l st)"
  by (simp add: regs_ok_def emitJumpPlaceholder_def emit_def)

lemma regs_ok_prelude: "regs_ok N st \<Longrightarrow> regs_ok N (emit_prelude st)"
  by (simp add: emit_prelude_def regs_ok_emit)

lemma regs_ok_genExpression: "regs_ok N st \<Longrightarrow> regs_ok N (genExpression e st)"
proof (induction e arbitrary: st)
  case (BinaryExpr bop l r)
  then show ?case by (cases bop) (simp_all add: Let_def regs_ok_emit)
qed (auto simp add: regs_ok_emit split: option.splits)

lemma regs_ok_let:
  assumes "regs_ok N st"
  shows "regs_ok (insert name N) (genStatement (LetStatement name val) st)"
proof -
  let ?st1 = "genExpression val st"
  have ok: "regs_ok N ?st1" using assms by (rule regs_ok_genExpression)
  show ?thesis
  proof (cases "symbolTable ?st1 name")
    case None
    with ok have fresh: "name \<notin> N" by (auto simp add: regs_ok_def)
    let ?r = "nextRegister ?st1"
    let ?st2 = "?st1\<lparr>nextRegister := ?r + 1, symbolTable := (symbolTable ?st1)(name \<mapsto> of_int ?r)\<rparr>"
    have g: "genStatement (LetStatement name val) st
               = emit (instr1 POP (of_int ?r)) (emit (instr1 PUSH 0) ?st2)"
      by (simp add: None Let_def)
    from ok have fin: "finite N" and nr: "?r = 1 + int (card N)"
      and pops: "\<And>k. 1 \<le> k \<Longrightarrow> k < ?r \<Longrightarrow> instr1 POP (of_int k) \<in> set (instructions ?st1)"
      and dm: "dom (symbolTable ?st1) = N"
      by (simp_all add: regs_ok_def)
    have "\<And>k. 1 \<le> k \<Longrightarrow> k < ?r + 1 \<Longrightarrow>
            instr1 POP (of_int k) \<in> set (instructions ?st1 @ [instr1 PUSH 0, instr1 POP (of_int ?r)])"
    proof -
      fix k :: int assume k: "1 \<le> k" "k < ?r + 1"
      show "instr1 POP (of_int k) \<in> set (instructions ?st1 @ [instr1 PUSH 0, instr1 POP (of_int ?r)])"
      proof (cases "k = ?r")
        case True
        then show ?thesis by simp
      next
        case False
        with k have "k < ?r" by simp
        with k(1) pops show ?thesis by simp
      qed
    qed
    then show ?thesis
      unfolding g using fin nr dm fresh by (simp add: regs_ok_def emit_def)
  next
    case (Some r)
    with ok have "name \<in> N" by (auto simp add: regs_ok_def)
    then have "insert name N = N" by auto
    moreover have "genStatement (LetStatement name val) st
               = emit (instr1 POP r) (emit (instr1 PUSH 0) ?st1)"
      by (simp add: Some Let_def)
    ultimately show ?thesis using ok by (simp add: regs_ok_emit)
  qed
qed

lemma regs_ok_fold:
  assumes "\<And>s N st. s \<in> set ss \<Longrightarrow> regs_ok N st
             \<Longrightarrow> regs_ok (N \<union> set (bound_names s)) (genStatement s st)"
    and "regs_ok N st"
  shows "regs_ok (N \<union> set (concat (map bound_names ss))) (fold genStatement ss st)"
  using assms
proof (induction ss arbitrary: N st)
  case Nil
  then show ?case by simp
next
  case (Cons a ss)
  have "regs_ok (N \<union> set (bound_names a)) (genStatement a st)"
    using Cons.prems by simp
  then have "regs_ok (N \<union> set (bound_names a) \<union> set (concat (map bound_names ss)))
               (fold genStatement ss (genStatement a st))"
    using Cons.prems(1) by (intro Cons.IH) simp_all
  then show ?case by (simp add: Un_assoc)
qed

lemma regs_ok_genStatement:
  "regs_ok N st \<Longrightarrow> regs_ok (N \<union> set (bound_names s)) (genStatement s st)"
proof (induction s arbitrary: N st)
  case (LetStatement name val)
  then show ?case using regs_ok_let [of N st name val] by simp
next
  case (PrintStatement e)
  then show ?case by (simp add: regs_ok_emit regs_ok_genExpression)
next
  case (IfStatement c t e)
  let ?st3 = "emit_prelude (genExpression c st)"
  let ?el = "labelCounter ?st3"
  let ?en = "labelCounter ?st3 + 1"
  let ?st3' = "?st3\<lparr>labelCounter := ?el + 1, labelCounter := ?el + 1 + 1\<rparr>"
  let ?st4 = "emitJumpPlaceholder JZ ?el ?st3'"
  let ?st5 = "fold genStatement t ?st4"
  let ?st6 = "emitJumpPlaceholder JMP ?en ?st5"
  let ?st8 = "fold genStatement e (markLabel ?el ?st6)"
  let ?N1 = "N \<union> set (concat (map bound_names t))"
  have g: "genStatement (IfStatement c t e) st = markLabel ?en ?st8"
    by (simp add: newLabel_def Let_def)
  have "regs_ok N ?st4"
    using IfStatement.prems by (simp add: regs_ok_jump regs_ok_prelude regs_ok_genExpression)
  then have "regs_ok ?N1 ?st5"
    using IfStatement.IH(1) by (intro regs_ok_fold) auto
  then have "regs_ok ?N1 (markLabel ?el ?st6)"
    by (simp add: regs_ok_mark regs_ok_jump)
  then have "regs_ok (?N1 \<union> set (concat (map bound_names e))) ?st8"
    using IfStatement.IH(2) by (intro regs_ok_fold) auto
  then show ?case unfolding g by (simp add: regs_ok_mark Un_assoc)
next
  case (WhileStatement c b)
  let ?cl = "labelCounter st"
  let ?en = "labelCounter st + 1"
  let ?st2 = "st\<lparr>labelCounter := ?cl + 1, labelCounter := ?cl + 1 + 1\<rparr>"
  let ?st4 = "emit_prelude (genExpression c (markLabel ?cl ?st2))"
  let ?st5 = "emitJumpPlaceholder JZ ?en ?st4"
  let ?st6 = "fold genStatement b ?st5"
  let ?st7 = "emitJumpPlaceholder JMP ?cl ?st6"
  have g: "genStatement (WhileStatement c b) st = markLabel ?en ?st7"
    by (simp add: newLabel_def Let_def)
  have "regs_ok N ?st5"
    using WhileStatement.prems
    by (simp add: regs_ok_jump regs_ok_prelude regs_ok_genExpression regs_ok_mark)
  then have "regs_ok (N \<union> set (concat (map bound_names b))) ?st6"
    using WhileStatement.IH by (intro regs_ok_fold) auto
  then show ?case unfolding g by (simp add: regs_ok_mark regs_ok_jump)
qed

lemma regs_ok_lowered: "regs_ok (set (concat (map bound_names P))) (lowered P)"
proof -
  have "regs_ok {} init_codegen" by (simp add: regs_ok_def init_codegen_def)
  then have "regs_ok ({} \<union> set (concat (map bound_names P))) (fold genStatement P init_codegen)"
    by (intro regs_ok_fold regs_ok_genStatement)
  then show ?thesis by (simp add: lowered_def regs_ok_emit)
qed

lemma pop_4_generated:
  assumes "3 < card (set (concat (map bound_names P)))"
  shows "instr1 POP 4 \<in> set (generate P)"
proof -
  from regs_ok_lowered [of P] assms have "4 < nextRegister (lowered P)"
    and "\<And>k. 1 \<le> k \<Longrightarrow> k < nextRegister (lowered P)
            \<Longrightarrow> instr1 POP (of_int k) \<in> set (instructions (lowered P))"
    by (simp_all add: regs_ok_def)
  from this(2) [of 4] this(1) have "instr1 POP 4 \<in> set (instructions (lowered P))" by simp
  then obtain k where k: "k < length (instructions (lowered P))"
    "instructions (lowered P) ! k = instr1 POP 4"
    by (auto simp add: in_set_conv_nth)
  then have kl: "k < length (generate P)" by (simp add: length_generate)
  with k have "op (generate P ! k) = POP" by (simp add: op_generate instr1_def)
  then have "\<not> is_jump (op (generate P ! k))" by (simp add: is_jump_def)
  with kl have "generate P ! k = instr1 POP 4" using k(2) by (simp add: generate_unpatched)
  with kl show ?thesis by (auto simp add: in_set_conv_nth)
qed

lemma upt_32: "[0 ..< unat (32 :: 16 word)] =
  [0, 1, 2, 3, 4, 5, 6, 7, 8, 9, 10, 11, 12, 13, 14, 15, 16, 17, 18, 19, 20, 21, 22, 23, 24, 25,
   26, 27, 28, 29, 30, 31]"
  by (simp add: upt_rec)

lemma generate_four_names:
  "generate four_names_program =
     [instr1 MOV 512, instr0 PRN,
      instr1 MOV 1, instr1 PUSH 0, instr1 POP 1, instr1 MOV 0, instr0 SUB, instr0 STE,
      instr0 CLE, instr1 JZ 11, instr1 JMP 2,
      instr1 MOV 1, instr1 PUSH 0, instr1 POP 1, instr1 MOV 2, instr1 PUSH 0, instr1 POP 2,
      instr1 MOV 3, instr1 PUSH 0, instr1 POP 3, instr1 MOV 4, instr1 PUSH 0, instr1 POP 4,
      instr0 HLT]"
  by (simp add: four_names_program_def codegen_simps)

text \<open>
  Claim C9, as stated, fails in its conclusion. The program \<open>printbro(512);
  whilebro (1) { } letbro a = 1; letbro b = 2; letbro c = 3; letbro d = 4;\<close> binds four
  names and its code contains \<open>POP 4\<close>, but the run never reaches it: the loop's
  \<open>JMP 2\<close> lands on byte 2, the high byte \<open>0x02\<close> of the operand of \<open>MOV 512\<close>, which
  is the opcode of \<open>HLT\<close>. The program prints 512 and halts normally, with no error.
\<close>

theorem four_names_program_halts:
  "3 < card (set (concat (map bound_names four_names_program)))
   \<and> instr1 POP 4 \<in> set (generate four_names_program)
   \<and> observe (execute (loadProgram (generate four_names_program) init_vm)) =
       Some (Inr (''Starting VM Execution...\<newline>''
         @ ''Output: 512\<newline>''
         @ ''HUMAN OUTPUT: 512\<newline>''
         @ ''System Halted\<newline>''
         @ ''AX: 65535, BX: 1, CX: 0, DX: 0, SP: 65535\<newline>''
         @ ''00 00 00 00 00 00 00 00 00 00 00 00 00 00 00 00 ''
         @ ''00 00 00 00 00 00 00 00 00 00 00 00 00 00 01 00 \<newline>''
         @ ''Program Halted.\<newline>''))"
proof -
  have n: "3 < card (set (concat (map bound_names four_names_program)))"
    by (simp add: four_names_program_def card_insert_if)
  have p: "instr1 POP 4 \<in> set (generate four_names_program)"
    by (simp add: generate_four_names)
  have r: "observe (execute (loadProgram (generate four_names_program) init_vm)) =
       Some (Inr (''Starting VM Execution...\<newline>''
         @ ''Output: 512\<newline>''
         @ ''HUMAN OUTPUT: 512\<newline>''
         @ ''System Halted\<newline>''
         @ ''AX: 65535, BX: 1, CX: 0, DX: 0, SP: 65535\<newline>''
         @ ''00 00 00 00 00 00 00 00 00 00 00 00 00 00 00 00 ''
         @ ''00 00 00 00 00 00 00 00 00 00 00 00 00 00 01 00 \<newline>''
         @ ''Program Halted.\<newline>''))"
    apply (simp add: generate_four_names load_simps)
    apply (subst run_loop.simps, simp add: vm_simps)+
    apply (simp add: observe_def halt_dump_def)
    apply (simp only: printhex_def upt_32)
    apply (simp only: list.map concat.simps)
    apply (simp add: neg_word16 text_simps)
    done
  from n p r show ?thesis by blast
qed

text \<open>
  Claim C9, amended. For every program whose \<open>letbro\<close> statements bind more than three
  distinct names, \<open>generate\<close> returns a list containing a \<open>POP\<close> with an operand of at
  least 4; a read of a variable with register index \<open>r\<close> is lowered to \<open>PUSH r; POP 0\<close>;
  and executing a \<open>PUSH\<close> or a \<open>POP\<close> with an operand of at least 4 is the fatal error
  \<open>Invalid PUSH register\<close> or \<open>Invalid POP register\<close>, which ends the execution loop
  when the loop fetches such an instruction.
\<close>

theorem fourth_variable_register_invalid:
  "(3 < card (set (concat (map bound_names P))) \<longrightarrow>
      (\<exists>i \<in> set (generate P). op i = POP \<and> 4 \<le> unat (a1 i)))
   \<and> (symbolTable st x = Some r \<longrightarrow>
        instructions (genExpression (VariableExpr x) st)
          = instructions st @ [instr1 PUSH r, instr1 POP 0])
   \<and> (4 \<le> unat r \<longrightarrow>
        executeInstruction \<lparr>op = PUSH, a1 = r, a2 = y\<rparr> s = Inl (''Invalid PUSH register'', s)
      \<and> executeInstruction \<lparr>op = POP, a1 = r, a2 = y\<rparr> s = Inl (''Invalid POP register'', s))
   \<and> (4 \<le> unat (a1 (fst (fetchNextInstruction s)))
        \<and> op (fst (fetchNextInstruction s)) \<in> {PUSH, POP} \<longrightarrow>
        (\<exists>m s'. run_loop s = Some (Inl (m, s'))
                \<and> m \<in> {''Invalid PUSH register'', ''Invalid POP register''}))"
proof (intro conjI impI)
  assume "3 < card (set (concat (map bound_names P)))"
  then have "instr1 POP 4 \<in> set (generate P)" by (rule pop_4_generated)
  moreover have "op (instr1 POP 4) = POP \<and> 4 \<le> unat (a1 (instr1 POP 4))"
    by (simp add: instr1_def)
  ultimately show "\<exists>i \<in> set (generate P). op i = POP \<and> 4 \<le> unat (a1 i)" by blast
next
  assume "symbolTable st x = Some r"
  then show "instructions (genExpression (VariableExpr x) st)
          = instructions st @ [instr1 PUSH r, instr1 POP 0]"
    by (simp add: emit_def)
next
  assume r: "4 \<le> unat r"
  then have "r \<noteq> 0" "r \<noteq> 1" "r \<noteq> 2" "r \<noteq> 3" by auto
  then show "executeInstruction \<lparr>op = PUSH, a1 = r, a2 = y\<rparr> s = Inl (''Invalid PUSH register'', s)"
    "executeInstruction \<lparr>op = POP, a1 = r, a2 = y\<rparr> s = Inl (''Invalid POP register'', s)"
    by (simp_all add: executeInstruction_def handleError_def)
next
  let ?i = "fst (fetchNextInstruction s)"
  let ?s1 = "snd (fetchNextInstruction s)"
  assume a: "4 \<le> unat (a1 ?i) \<and> op ?i \<in> {PUSH, POP}"
  then have "a1 ?i \<noteq> 0" "a1 ?i \<noteq> 1" "a1 ?i \<noteq> 2" "a1 ?i \<noteq> 3" by auto
  with a have "executeInstruction ?i ?s1 = Inl (''Invalid PUSH register'', ?s1)
             \<or> executeInstruction ?i ?s1 = Inl (''Invalid POP register'', ?s1)"
    by (auto simp add: executeInstruction_def handleError_def)
  then have "run_loop s = Some (Inl (''Invalid PUSH register'', ?s1))
           \<or> run_loop s = Some (Inl (''Invalid POP register'', ?s1))"
    using fatal_stops_loop [of s] by auto
  then show "\<exists>m s'. run_loop s = Some (Inl (m, s'))
                \<and> m \<in> {''Invalid PUSH register'', ''Invalid POP register''}"
    by auto
qed

theorem fourth_variable_register_invalid_witness:
  "3 < card (set (concat (map bound_names four_lets)))
   \<and> (\<exists>i \<in> set (generate four_lets). op i = POP \<and> 4 \<le> unat (a1 i))
   \<and> instructions (genExpression (VariableExpr ''d'') (init_codegen\<lparr>symbolTable := [''d'' \<mapsto> 4]\<rparr>))
       = [instr1 PUSH 4, instr1 POP 0]
   \<and> executeInstruction \<lparr>op = PUSH, a1 = 4, a2 = 0\<rparr> init_vm = Inl (''Invalid PUSH register'', init_vm)
   \<and> executeInstruction \<lparr>op = POP, a1 = 4, a2 = 0\<rparr> init_vm = Inl (''Invalid POP register'', init_vm)
   \<and> (\<exists>m s'. run_loop (init_vm\<lparr>memory := (\<lambda>_. 0)(0 := 0x1B, 1 := 4)\<rparr>) = Some (Inl (m, s'))
              \<and> m \<in> {''Invalid PUSH register'', ''Invalid POP register''})"
proof -
  let ?st = "init_codegen\<lparr>symbolTable := [''d'' \<mapsto> 4]\<rparr>"
  let ?s = "init_vm\<lparr>memory := (\<lambda>_. 0)(0 := 0x1B, 1 := 4)\<rparr>"
  have n: "3 < card (set (concat (map bound_names four_lets)))"
    by (simp add: four_lets_def card_insert_if)
  have st: "symbolTable ?st ''d'' = Some 4" "instructions ?st = []"
    by (simp_all add: init_codegen_def)
  have u: "4 \<le> unat (4 :: 16 word)" by simp
  have f: "fetchNextInstruction ?s = (\<lparr>op = POP, a1 = 4, a2 = 0\<rparr>, ?s\<lparr>ip := 3\<rparr>)"
    by (simp add: fetchNextInstruction_def opcode_of_byte_def read16_def init_vm_def)
  then have h: "4 \<le> unat (a1 (fst (fetchNextInstruction ?s)))
        \<and> op (fst (fetchNextInstruction ?s)) \<in> {PUSH, POP}"
    by simp
  have i: "instructions (genExpression (VariableExpr ''d'') ?st) = [instr1 PUSH 4, instr1 POP 0]"
    using fourth_variable_register_invalid [of four_lets ?st "''d''" 4 0 init_vm] st by simp
  from fourth_variable_register_invalid [of four_lets ?st "''d''" 4 0 init_vm] n u
    fourth_variable_register_invalid [of four_lets ?st "''d''" 4 0 ?s] h i
  show ?thesis by blast
qed

end
